theory Spec2Isabelle
  imports Main "HOL-Library.Sublist"
begin

section \<open>JavaScript strings\<close>

text \<open>
  A JavaScript string is modelled as a \<^typ>\<open>string\<close>: a list of characters, each one
  code unit below 256. The functions of this section are the built-in string operations
  the sources call, with the fixed regular expressions of the sources written out as
  list functions.
\<close>

definition startsWith :: "string \<Rightarrow> string \<Rightarrow> bool" where
  \<comment> \<open>\<^verbatim>\<open>s.startsWith(p)\<close>\<close>
  "startsWith s p = prefix p s"

definition is_digit :: "char \<Rightarrow> bool" where
  "is_digit c = (48 \<le> (of_char c :: nat) \<and> (of_char c :: nat) \<le> 57)"

definition is_upper :: "char \<Rightarrow> bool" where
  "is_upper c = (65 \<le> (of_char c :: nat) \<and> (of_char c :: nat) \<le> 90)"

definition is_lower :: "char \<Rightarrow> bool" where
  "is_lower c = (97 \<le> (of_char c :: nat) \<and> (of_char c :: nat) \<le> 122)"

definition is_word_char :: "char \<Rightarrow> bool" where
  \<comment> \<open>the class \<^verbatim>\<open>\w\<close>: a letter, a digit or the underscore\<close>
  "is_word_char c = (is_digit c \<or> is_upper c \<or> is_lower c \<or> c = CHR ''_'')"

definition starts_with_word_char :: "string \<Rightarrow> bool" where
  \<comment> \<open>\<^verbatim>\<open>s.match(/^\w/)\<close>\<close>
  "starts_with_word_char s = (case s of [] \<Rightarrow> False | c # _ \<Rightarrow> is_word_char c)"

definition lower_char :: "char \<Rightarrow> char" where
  "lower_char c =
     (case map_of (zip ''ABCDEFGHIJKLMNOPQRSTUVWXYZ'' ''abcdefghijklmnopqrstuvwxyz'') c of
        None \<Rightarrow> c
      | Some d \<Rightarrow> d)"

definition ends_with_ci :: "string \<Rightarrow> string \<Rightarrow> bool" where
  \<comment> \<open>\<^verbatim>\<open>s.match(/\.js$/i)\<close> is \<open>ends_with_ci s ''.js''\<close>; the pattern is in lower case\<close>
  "ends_with_ci s p = suffix p (map lower_char s)"

definition strip_trailing_slash :: "string \<Rightarrow> string" where
  \<comment> \<open>\<^verbatim>\<open>s.replace(/\/$/, '')\<close>: one final slash is removed\<close>
  "strip_trailing_slash s = (if s \<noteq> [] \<and> last s = CHR ''/'' then butlast s else s)"

definition is_line_terminator :: "char \<Rightarrow> bool" where
  \<comment> \<open>the characters \<^verbatim>\<open>.\<close> does not match and at which \<^verbatim>\<open>$\<close> matches under the
      flag \<^verbatim>\<open>m\<close>: line feed and carriage return (the two others are allowAbove 255)\<close>
  "is_line_terminator c = (c = CHR 0x0A \<or> c = CHR 0x0D)"

definition is_white_space :: "char \<Rightarrow> bool" where
  \<comment> \<open>what \<^verbatim>\<open>trimLeft\<close> removes: tab, line feed, vertical tab, form feed, carriage
      return, space and the no-break space\<close>
  "is_white_space c =
     (c = CHR 0x09 \<or> c = CHR 0x0A \<or> c = CHR 0x0B \<or> c = CHR 0x0C \<or> c = CHR 0x0D \<or>
      c = CHR 0x20 \<or> c = CHR 0xA0)"

definition trimLeft :: "string \<Rightarrow> string" where
  "trimLeft s = dropWhile is_white_space s"

fun replace_first :: "string \<Rightarrow> string \<Rightarrow> string \<Rightarrow> string" where
  \<comment> \<open>\<^verbatim>\<open>s.replace(p, r)\<close> for a string pattern \<open>p\<close> and a replacement \<open>r\<close> with no
      \<^verbatim>\<open>$\<close>: the first occurrence of \<open>p\<close> is replaced\<close>
  "replace_first p r [] = (if p = [] then r else [])"
| "replace_first p r (c # cs) =
     (if prefix p (c # cs) then r @ drop (length p) (c # cs)
      else c # replace_first p r cs)"

fun split_on :: "char \<Rightarrow> string \<Rightarrow> string list" where
  \<comment> \<open>\<^verbatim>\<open>s.split(sep)\<close> for a separator of one character\<close>
  "split_on sep [] = [[]]"
| "split_on sep (c # cs) =
     (if c = sep then [] # split_on sep cs
      else (case split_on sep cs of
              [] \<Rightarrow> [[c]]
            | w # ws \<Rightarrow> (c # w) # ws))"

fun join_with :: "string \<Rightarrow> string list \<Rightarrow> string" where
  \<comment> \<open>\<^verbatim>\<open>xs.join(sep)\<close>\<close>
  "join_with sep [] = []"
| "join_with sep [x] = x"
| "join_with sep (x # y # ys) = x @ sep @ join_with sep (y # ys)"

section \<open>The path module (POSIX)\<close>

text \<open>
  The sources call \<^verbatim>\<open>path.join\<close>, \<^verbatim>\<open>path.resolve\<close>, \<^verbatim>\<open>path.dirname\<close>,
  \<^verbatim>\<open>path.basename\<close> and \<^verbatim>\<open>path.parse\<close> of Node.js. They are modelled in their POSIX
  variant (\<^verbatim>\<open>path.sep\<close> is the slash), segment by segment.
\<close>

fun normalize_segments :: "bool \<Rightarrow> string list \<Rightarrow> string list \<Rightarrow> string list" where
  \<comment> \<open>\<^verbatim>\<open>normalizeString\<close>: \<open>acc\<close> is the result so far, last segment first\<close>
  "normalize_segments allowAbove acc [] = rev acc"
| "normalize_segments allowAbove acc (s # ss) =
     (if s = [] \<or> s = ''.'' then normalize_segments allowAbove acc ss
      else if s = ''..'' then
        (case acc of
           [] \<Rightarrow> normalize_segments allowAbove (if allowAbove then [''..''] else []) ss
         | a # as \<Rightarrow>
             if a = ''..'' then normalize_segments allowAbove (if allowAbove then ''..'' # acc else acc) ss
             else normalize_segments allowAbove as ss)
      else normalize_segments allowAbove (s # acc) ss)"

definition normalizeString :: "string \<Rightarrow> bool \<Rightarrow> string" where
  "normalizeString p allowAbove = join_with ''/'' (normalize_segments allowAbove [] (split_on CHR ''/'' p))"

definition path_normalize :: "string \<Rightarrow> string" where
  "path_normalize p =
     (if p = [] then ''.''
      else
        let isAbsolute = (hd p = CHR ''/'');
            trailingSeparator = (last p = CHR ''/'');
            q = normalizeString p (\<not> isAbsolute)
        in if q = [] then (if isAbsolute then ''/'' else if trailingSeparator then ''./'' else ''.'')
           else (if isAbsolute then ''/'' else []) @ q @ (if trailingSeparator then ''/'' else []))"

definition path_join :: "string list \<Rightarrow> string" where
  "path_join args =
     (case filter (\<lambda>a. a \<noteq> []) args of
        [] \<Rightarrow> ''.''
      | a # as \<Rightarrow> path_normalize (join_with ''/'' (a # as)))"

fun resolve_args :: "string list \<Rightarrow> string \<Rightarrow> string" where
  \<comment> \<open>the loop of \<^verbatim>\<open>path.resolve\<close> from the last argument to the first absolute one;
      the arguments come last one first, \<open>r\<close> is \<^verbatim>\<open>resolvedPath\<close>\<close>
  "resolve_args [] r = r"
| "resolve_args (a # as) r =
     (if a = [] then resolve_args as r
      else if hd a = CHR ''/'' then a @ ''/'' @ r
      else resolve_args as (a @ ''/'' @ r))"

definition path_resolve :: "string \<Rightarrow> string list \<Rightarrow> string" where
  \<comment> \<open>\<open>cwd\<close> is \<^verbatim>\<open>process.cwd()\<close>, an absolute path\<close>
  "path_resolve cwd args =
     (let r = resolve_args (rev args @ [cwd]) [];
          resolvedAbsolute = (r \<noteq> [] \<and> hd r = CHR ''/'');
          q = normalizeString r (\<not> resolvedAbsolute)
      in if resolvedAbsolute then ''/'' @ q
         else if q \<noteq> [] then q else ''.'')"

definition path_basename :: "string \<Rightarrow> string" where
  "path_basename p =
     rev (takeWhile (\<lambda>c. c \<noteq> CHR ''/'') (dropWhile (\<lambda>c. c = CHR ''/'') (rev p)))"

definition path_dirname :: "string \<Rightarrow> string" where
  "path_dirname p =
     (case p of
        [] \<Rightarrow> ''.''
      | c # cs \<Rightarrow>
          (case dropWhile (\<lambda>x. x \<noteq> CHR ''/'') (dropWhile (\<lambda>x. x = CHR ''/'') (rev cs)) of
             [] \<Rightarrow> (if c = CHR ''/'' then ''/'' else ''.'')
           | _ # front \<Rightarrow>
               if c = CHR ''/'' \<and> front = [] then ''//'' else c # rev front))"

definition parse_base :: "string \<Rightarrow> string" where
  \<comment> \<open>\<^verbatim>\<open>path.parse(p).base\<close>: the root slash is not part of it\<close>
  "parse_base p = path_basename (if p \<noteq> [] \<and> hd p = CHR ''/'' then tl p else p)"

definition parse_at_root :: "string \<Rightarrow> bool" where
  \<comment> \<open>the base follows the root slash at once: \<^verbatim>\<open>startPart\<close> stays 0 there\<close>
  "parse_at_root p =
     (p \<noteq> [] \<and> hd p = CHR ''/'' \<and>
      dropWhile (\<lambda>x. x \<noteq> CHR ''/'') (dropWhile (\<lambda>x. x = CHR ''/'') (rev (tl p))) = [])"

definition parse_ext :: "string \<Rightarrow> string" where
  \<comment> \<open>\<^verbatim>\<open>path.parse(p).ext\<close>: from the last dot of the base, unless the base has no dot,
      its only dot is its first character, or it is \<^verbatim>\<open>..\<close>\<close>
  "parse_ext p =
     (let b = parse_base p;
          e = rev (takeWhile (\<lambda>c. c \<noteq> CHR ''.'') (rev b))
      in if CHR ''.'' \<notin> set b then []
         else if length e + 1 = length b then []
         else if b = ''..'' \<and> \<not> parse_at_root p then []
         else CHR ''.'' # e)"

definition parse_name :: "string \<Rightarrow> string" where
  \<comment> \<open>\<^verbatim>\<open>path.parse(p).name\<close>: the base without its extension\<close>
  "parse_name p = (let b = parse_base p in take (length b - length (parse_ext p)) b)"

definition simple_name :: "string \<Rightarrow> bool" where
  \<comment> \<open>the name of a file: not empty, with no slash, and neither \<^verbatim>\<open>.\<close> nor \<^verbatim>\<open>..\<close>\<close>
  "simple_name n = (n \<noteq> [] \<and> CHR ''/'' \<notin> set n \<and> n \<noteq> ''.'' \<and> n \<noteq> ''..'')"

section \<open>The environment: file system queries and regular expressions\<close>

text \<open>
  \<^verbatim>\<open>getAbsPathInfoSync\<close> comes from the module \<^verbatim>\<open>./utils\<close>; it is a parameter here,
  with the file system behind it: for an absolute path it answers nothing (\<^verbatim>\<open>null\<close>) or
  the path found and whether it is a file. \<^verbatim>\<open>fs.pathExistsSync\<close> and \<^verbatim>\<open>process.cwd()\<close>
  are the two other queries.
\<close>

record path_info =
  info_path :: string
  isFile :: bool

record env =
  cwd :: string
  pathExistsSync :: "string \<Rightarrow> bool"
  getAbsPathInfoSync :: "string \<Rightarrow> path_info option"

text \<open>
  A regular expression built at run time (\<^verbatim>\<open>new RegExp(source)\<close>) is run by the engine of
  the language, a parameter: \<open>re_test r source s\<close> is \<^verbatim>\<open>new RegExp(source).test(s)\<close>
  (and whether \<^verbatim>\<open>s.match\<close> finds something), \<open>re_replace r source s t\<close> is
  \<^verbatim>\<open>s.replace(new RegExp(source), t)\<close>.
\<close>

record regexp_engine =
  re_test :: "string \<Rightarrow> string \<Rightarrow> bool"
  re_replace :: "string \<Rightarrow> string \<Rightarrow> string \<Rightarrow> string"

datatype error =
    TypeError  \<comment> \<open>a property of \<^verbatim>\<open>undefined\<close> is read\<close>
  | IOError string  \<comment> \<open>a file that is read does not exist\<close>
  | Error string  \<comment> \<open>\<^verbatim>\<open>throw new Error(message)\<close>\<close>

section \<open>The options of the tool\<close>

record module_rule =
  mod_name :: string
  mod_path :: string
  mod_find :: "string option"

record extension_options =
  use :: string
  ignore :: "string list"

record options =
  input :: "string list"
  outputDir :: string  \<comment> \<open>the field \<^verbatim>\<open>output\<close>\<close>
  forceDirectory :: "bool option"
  modules :: "module_rule list"
  extension :: extension_options
  addModuleEntry :: bool
  addPackageJson :: bool
  filesWithShebang :: "string list"

section \<open>transformer.js: the replacement of a specifier\<close>

text \<open>
  Modelled from the spec: \<^verbatim>\<open>findFileSync\<close> of \<^verbatim>\<open>./utils\<close> is not among the sources. It
  probes the names of the list in the directory, in the order of the list (``in that
  priority order''), and answers the path of the first that exists, or nothing.
\<close>

fun findFileSync :: "env \<Rightarrow> string list \<Rightarrow> string \<Rightarrow> string option" where
  "findFileSync e [] directory = None"
| "findFileSync e (n # ns) directory =
     (let testpath = path_join [directory, n]
      in if pathExistsSync e testpath then Some testpath else findFileSync e ns directory)"

definition createReplacementForFolder :: "env \<Rightarrow> string \<Rightarrow> string \<Rightarrow> string option" where
  "createReplacementForFolder e absPath importPath =
     (let pkgPath = path_join [absPath, ''package.json''];
          pkgExists = pathExistsSync e pkgPath
      in if pkgExists then Some (strip_trailing_slash importPath)
         else (case findFileSync e [''index.mjs'', ''index.js''] absPath of
                 None \<Rightarrow> None
               | Some file \<Rightarrow>
                   if file = [] then None
                   else Some (path_join [importPath, path_basename file])))"

definition absPath_of :: "env \<Rightarrow> string \<Rightarrow> string \<Rightarrow> string" where
  \<comment> \<open>the constant \<^verbatim>\<open>absPath\<close> of \<^verbatim>\<open>updatePath\<close>\<close>
  "absPath_of e base importPath =
     (if startsWith importPath ''.'' then path_join [base, importPath]
      else path_resolve (cwd e) [''node_modules'', importPath])"

definition hotfix :: "string \<Rightarrow> string \<Rightarrow> string" where
  \<comment> \<open>the last statement of \<^verbatim>\<open>updatePath\<close>\<close>
  "hotfix importPath replacement =
     (if (importPath = ''.'' \<or> startsWith importPath ''./'') \<and> \<not> startsWith replacement ''./''
      then ''./'' @ replacement
      else replacement)"

definition replacementFor :: "env \<Rightarrow> string \<Rightarrow> string \<Rightarrow> string" where
  \<comment> \<open>the variable \<^verbatim>\<open>replacement\<close> of \<^verbatim>\<open>updatePath\<close> before its last statement\<close>
  "replacementFor e absPath importPath =
     (case getAbsPathInfoSync e absPath of
        None \<Rightarrow> importPath
      | Some info \<Rightarrow>
          if isFile info then path_join [path_dirname importPath, path_basename (info_path info)]
          else (case createReplacementForFolder e absPath importPath of
                  None \<Rightarrow> importPath
                | Some folderReplacement \<Rightarrow>
                    if folderReplacement = [] then importPath else folderReplacement))"

definition updatePath :: "env \<Rightarrow> string \<Rightarrow> string \<Rightarrow> string" where
  \<comment> \<open>\<open>importPath\<close> is \<^verbatim>\<open>item.value.source.value\<close>\<close>
  "updatePath e base importPath =
     hotfix importPath (replacementFor e (absPath_of e base importPath) importPath)"

section \<open>transformer.js: the transformation of a file\<close>

text \<open>
  A file is the list of its statements. A node is its kind and its source, the
  specifier; a named export may have none. The other fields of a node are copied by
  every replacement and are left out.
\<close>

datatype statement =
    ImportDeclaration string
  | ExportNamedDeclaration "string option"
  | ExportAllDeclaration string
  | OtherStatement

definition source_of :: "statement \<Rightarrow> string option" where
  \<comment> \<open>\<^verbatim>\<open>item.value.source && item.value.source.value\<close>\<close>
  "source_of st =
     (case st of
        ImportDeclaration p \<Rightarrow> Some p
      | ExportNamedDeclaration s \<Rightarrow> s
      | ExportAllDeclaration p \<Rightarrow> Some p
      | OtherStatement \<Rightarrow> None)"

definition is_import :: "statement \<Rightarrow> bool" where
  \<comment> \<open>what \<^verbatim>\<open>root.find(j.ImportDeclaration)\<close> finds\<close>
  "is_import st = (case st of ImportDeclaration p \<Rightarrow> True | _ \<Rightarrow> False)"

definition needsPathUpdate :: "regexp_engine \<Rightarrow> string list \<Rightarrow> string option \<Rightarrow> bool" where
  \<comment> \<open>the second argument is \<^verbatim>\<open>ignoreListForExt\<close>, the third the source of the node\<close>
  "needsPathUpdate r ignoreListForExt source =
     (case source of
        None \<Rightarrow> False
      | Some exportPath \<Rightarrow>
          exportPath \<noteq> [] \<and>
          \<not> list_ex (\<lambda>exp. re_test r exp exportPath) ignoreListForExt \<and>
          (startsWith exportPath ''.'' \<or> starts_with_word_char exportPath))"

fun updateImport :: "regexp_engine \<Rightarrow> env \<Rightarrow> string list \<Rightarrow> string \<Rightarrow> statement \<Rightarrow> statement" where
  "updateImport r e ign base (ImportDeclaration p) =
     (if needsPathUpdate r ign (Some p) then ImportDeclaration (updatePath e base p)
      else ImportDeclaration p)"
| "updateImport r e ign base st = st"

fun updateExportNamed :: "regexp_engine \<Rightarrow> env \<Rightarrow> string list \<Rightarrow> string \<Rightarrow> statement \<Rightarrow> statement" where
  "updateExportNamed r e ign base (ExportNamedDeclaration (Some p)) =
     (if needsPathUpdate r ign (Some p) then ExportNamedDeclaration (Some (updatePath e base p))
      else ExportNamedDeclaration (Some p))"
| "updateExportNamed r e ign base st = st"

fun updateExportAll :: "regexp_engine \<Rightarrow> env \<Rightarrow> string list \<Rightarrow> string \<Rightarrow> statement \<Rightarrow> statement" where
  "updateExportAll r e ign base (ExportAllDeclaration p) =
     (if needsPathUpdate r ign (Some p) then ExportAllDeclaration (updatePath e base p)
      else ExportAllDeclaration p)"
| "updateExportAll r e ign base st = st"

definition addExtensions :: "regexp_engine \<Rightarrow> env \<Rightarrow> string list \<Rightarrow> string \<Rightarrow> statement list \<Rightarrow> statement list" where
  \<comment> \<open>the three passes that add the missing extensions, one per kind of node\<close>
  "addExtensions r e ign base root =
     map (updateExportAll r e ign base)
       (map (updateExportNamed r e ign base)
         (map (updateImport r e ign base) root))"

definition module_regex :: "module_rule \<Rightarrow> string" where
  \<comment> \<open>the source of \<^verbatim>\<open>mod.regex\<close>\<close>
  "module_regex m = ''^'' @ mod_name m @ ''(/|$)''"

definition matchesModule :: "regexp_engine \<Rightarrow> module_rule list \<Rightarrow> string \<Rightarrow> bool" where
  \<comment> \<open>the filter of the pass of the modules\<close>
  "matchesModule r mods importPath = list_ex (\<lambda>m. re_test r (module_regex m) importPath) mods"

definition replaceModule :: "regexp_engine \<Rightarrow> module_rule list \<Rightarrow> string \<Rightarrow> error + string" where
  \<comment> \<open>the replacement of the pass of the modules; \<^verbatim>\<open>info.find\<close> of no rule is a
      \<^verbatim>\<open>TypeError\<close>\<close>
  "replaceModule r mods importPath =
     (case find (\<lambda>m. startsWith importPath (mod_name m)) mods of
        None \<Rightarrow> Inl TypeError
      | Some info \<Rightarrow>
          let pattern =
                (case mod_find info of
                   None \<Rightarrow> ''^'' @ mod_name info
                 | Some f \<Rightarrow> if f = [] then ''^'' @ mod_name info else f)
          in Inr (re_replace r pattern importPath (mod_path info)))"

fun updateModule :: "regexp_engine \<Rightarrow> module_rule list \<Rightarrow> statement \<Rightarrow> error + statement" where
  \<comment> \<open>the pass of the modules on one node: only an import that passes the filter is
      replaced\<close>
  "updateModule r mods (ImportDeclaration importPath) =
     (if matchesModule r mods importPath then
        (case replaceModule r mods importPath of
           Inl err \<Rightarrow> Inl err
         | Inr replacement \<Rightarrow> Inr (ImportDeclaration replacement))
      else Inr (ImportDeclaration importPath))"
| "updateModule r mods st = Inr st"

fun replaceEach :: "('a \<Rightarrow> error + 'a) \<Rightarrow> 'a list \<Rightarrow> error + 'a list" where
  \<comment> \<open>\<^verbatim>\<open>replaceWith\<close> over the nodes, in their order; the first error ends it\<close>
  "replaceEach f [] = Inr []"
| "replaceEach f (x # xs) =
     (case f x of
        Inl err \<Rightarrow> Inl err
      | Inr y \<Rightarrow>
          (case replaceEach f xs of
             Inl err \<Rightarrow> Inl err
           | Inr ys \<Rightarrow> Inr (y # ys)))"

definition updateModules :: "regexp_engine \<Rightarrow> module_rule list \<Rightarrow> statement list \<Rightarrow> error + statement list" where
  "updateModules r mods root = replaceEach (updateModule r mods) root"

definition transform :: "regexp_engine \<Rightarrow> env \<Rightarrow> options \<Rightarrow> string \<Rightarrow> statement list \<Rightarrow> error + statement list" where
  \<comment> \<open>\<open>file_path\<close> is \<^verbatim>\<open>file.path\<close>, \<open>root\<close> the statements of \<^verbatim>\<open>file.source\<close>\<close>
  "transform r e cjs2esm file_path root =
     (let base = path_dirname file_path;
          ignoreListForExt = ignore (extension cjs2esm);
          root1 = addExtensions r e ignoreListForExt base root
      in if modules cjs2esm \<noteq> [] then updateModules r (modules cjs2esm) root1
         else Inr root1)"

section \<open>The files that are copied\<close>

text \<open>
  What \<^verbatim>\<open>fs.readdir\<close> and \<^verbatim>\<open>fs.stat\<close> tell of a directory is a tree: the names in it,
  each a file or a directory. The copying itself is left out of \<^verbatim>\<open>copyDirectory\<close>: it
  computes the list of the copied files, each with its source and its destination.
\<close>

datatype entry = File | Directory "(string \<times> entry) list"

record copied_file =
  file_from :: string  \<comment> \<open>the field \<^verbatim>\<open>from\<close>\<close>
  file_to :: string  \<comment> \<open>the field \<^verbatim>\<open>to\<close>\<close>

fun findFiles :: "string \<Rightarrow> (string \<times> entry) list \<Rightarrow> string list"
  and findItem :: "string \<Rightarrow> string \<Rightarrow> entry \<Rightarrow> string list" where
  "findFiles directory [] = []"
| "findFiles directory ((item, ent) # rest) =
     (if item = ''.'' \<or> item = ''..'' \<or> item = ''node_modules'' then []
      else findItem directory item ent) @ findFiles directory rest"
| "findItem directory item (Directory items) = findFiles (path_join [directory, item]) items"
| "findItem directory item File =
     (if ends_with_ci item ''.js'' then [path_join [directory, item]] else [])"

definition newPathFor :: "regexp_engine \<Rightarrow> string \<Rightarrow> string \<Rightarrow> string \<Rightarrow> bool \<Rightarrow> string \<Rightarrow> string" where
  \<comment> \<open>the destination of one file in \<^verbatim>\<open>copyDirectory\<close>; \<open>workdir\<close> is \<^verbatim>\<open>process.cwd()\<close>\<close>
  "newPathFor r workdir outputPath useExtension forceDir item =
     (let extension = ''.'' @ useExtension;
          cleanPath0 = drop (length workdir + 1) item;
          cleanPath = (if \<not> forceDir then join_with ''/'' (tl (split_on CHR ''/'' cleanPath0))
                       else cleanPath0);
          newPath = path_join [outputPath, cleanPath];
          ext = parse_ext newPath
      in if ext \<noteq> extension then re_replace r (CHR 0x5C # ext @ ''$'') newPath extension
         else newPath)"

definition copyDirectory ::
  "regexp_engine \<Rightarrow> string \<Rightarrow> string \<Rightarrow> (string \<times> entry) list \<Rightarrow> string \<Rightarrow> string \<Rightarrow> bool \<Rightarrow> copied_file list" where
  \<comment> \<open>\<open>items\<close> is the tree below \<open>directory\<close>\<close>
  "copyDirectory r workdir directory items outputPath useExtension forceDir =
     map (\<lambda>item. \<lparr>file_from = item, file_to = newPathFor r workdir outputPath useExtension forceDir item\<rparr>)
       (findFiles directory items)"

definition copyFiles ::
  "regexp_engine \<Rightarrow> string \<Rightarrow> (string \<Rightarrow> (string \<times> entry) list) \<Rightarrow> string list \<Rightarrow> string \<Rightarrow> string \<Rightarrow> bool option
     \<Rightarrow> copied_file list" where
  \<comment> \<open>\<open>tree\<close> gives the tree below each directory of the input\<close>
  "copyFiles r workdir tree inputPaths outputPath useExtension forceDir =
     (case inputPaths of
        [firstInput] \<Rightarrow>
          copyDirectory r workdir firstInput (tree firstInput) outputPath useExtension (forceDir = Some True)
      | _ \<Rightarrow>
          concat (map (\<lambda>item. copyDirectory r workdir item (tree item) outputPath useExtension True)
                    inputPaths))"

section \<open>The shebangs\<close>

text \<open>
  The files of the output directory are a map from paths to contents. Reading a file
  that is not there is an error. \<^verbatim>\<open>Promise.all\<close> runs the files of a list side by
  side, each on its own destination; here they are taken one after the other.
\<close>

type_synonym files = "string \<rightharpoonup> string"

fun shebang_exec :: "bool \<Rightarrow> string \<Rightarrow> string option" where
  \<comment> \<open>\<^verbatim>\<open>/^#!.*?$/m.exec(contents)\<close>: the first line that begins with \<^verbatim>\<open>#!\<close>, up to its
      end; the flag tells whether the position is the beginning of a line\<close>
  "shebang_exec bol [] = None"
| "shebang_exec bol (c # cs) =
     (if bol \<and> prefix ''#!'' (c # cs) then Some (takeWhile (\<lambda>x. \<not> is_line_terminator x) (c # cs))
      else shebang_exec (is_line_terminator c) cs)"

definition removeShebang :: "string \<Rightarrow> (string \<times> string) option" where
  \<comment> \<open>one file of \<^verbatim>\<open>removeShebangs\<close>: the shebang and the new contents, if there is a match\<close>
  "removeShebang contents =
     (case shebang_exec True contents of
        None \<Rightarrow> None
      | Some shebang \<Rightarrow> Some (shebang, trimLeft (replace_first shebang [] contents)))"

definition restoreShebang :: "string \<Rightarrow> string \<Rightarrow> string" where
  \<comment> \<open>one file of \<^verbatim>\<open>restoreShebangs\<close>\<close>
  "restoreShebang shebang contents = shebang @ [CHR 0x0A, CHR 0x0A] @ contents"

fun object_set :: "string \<Rightarrow> string \<Rightarrow> (string \<times> string) list \<Rightarrow> (string \<times> string) list" where
  \<comment> \<open>\<^verbatim>\<open>{ ...acc, [key]: value }\<close>: the keys of an object in the order they were added\<close>
  "object_set k v [] = [(k, v)]"
| "object_set k v ((k', v') # kvs) =
     (if k = k' then (k, v) # kvs else (k', v') # object_set k v kvs)"

fun removeShebangItems :: "copied_file list \<Rightarrow> files \<Rightarrow> (error + (string \<times> copied_file) list) \<times> files" where
  \<comment> \<open>the first statement of \<^verbatim>\<open>removeShebangs\<close>: the items that are not \<^verbatim>\<open>null\<close>\<close>
  "removeShebangItems [] fs = (Inr [], fs)"
| "removeShebangItems (file # rest) fs =
     (case fs (file_to file) of
        None \<Rightarrow> (Inl (IOError (file_to file)), fs)
      | Some contents \<Rightarrow>
          (case removeShebang contents of
             None \<Rightarrow> removeShebangItems rest fs
           | Some (shebang, contents') \<Rightarrow>
               (case removeShebangItems rest (fs(file_to file \<mapsto> contents')) of
                  (Inl err, fs') \<Rightarrow> (Inl err, fs')
                | (Inr items, fs') \<Rightarrow> (Inr ((shebang, file) # items), fs'))))"

definition removeShebangs :: "copied_file list \<Rightarrow> files \<Rightarrow> (error + (string \<times> string) list) \<times> files" where
  "removeShebangs fileList fs =
     (case removeShebangItems fileList fs of
        (Inl err, fs') \<Rightarrow> (Inl err, fs')
      | (Inr items, fs') \<Rightarrow>
          (Inr (foldl (\<lambda>acc (shebang, file). object_set (file_to file) shebang acc) [] items), fs'))"

fun restoreShebangs :: "(string \<times> string) list \<Rightarrow> files \<Rightarrow> (error + unit) \<times> files" where
  "restoreShebangs [] fs = (Inr (), fs)"
| "restoreShebangs ((filepath, shebang) # rest) fs =
     (case fs filepath of
        None \<Rightarrow> (Inl (IOError filepath), fs)
      | Some contents \<Rightarrow> restoreShebangs rest (fs(filepath \<mapsto> restoreShebang shebang contents)))"

text \<open>
  What the two functions do to a list of files with distinct destinations, written
  without the errors and the order: the items that are recorded and the files that are
  left.
\<close>

definition strippedContents :: "string \<Rightarrow> string" where
  \<comment> \<open>what \<^verbatim>\<open>removeShebangs\<close> leaves in a file with these contents\<close>
  "strippedContents contents =
     (case removeShebang contents of None \<Rightarrow> contents | Some (shebang, contents') \<Rightarrow> contents')"

definition shebangItem :: "files \<Rightarrow> copied_file \<Rightarrow> (string \<times> copied_file) option" where
  \<comment> \<open>the item of a file in \<^verbatim>\<open>removeShebangs\<close>, if it is not \<^verbatim>\<open>null\<close>\<close>
  "shebangItem fs file =
     (case fs (file_to file) of
        None \<Rightarrow> None
      | Some contents \<Rightarrow>
          (case removeShebang contents of None \<Rightarrow> None | Some (shebang, contents') \<Rightarrow> Some (shebang, file)))"

fun shebangItems :: "files \<Rightarrow> copied_file list \<Rightarrow> (string \<times> copied_file) list" where
  \<comment> \<open>the items of the files of a list, in their order\<close>
  "shebangItems fs [] = []"
| "shebangItems fs (f # rest) =
     (case shebangItem fs f of
        None \<Rightarrow> shebangItems fs rest
      | Some item \<Rightarrow> item # shebangItems fs rest)"

definition strippedFiles :: "files \<Rightarrow> copied_file list \<Rightarrow> files" where
  "strippedFiles fs fileList =
     (\<lambda>p. if p \<in> file_to ` set fileList then map_option strippedContents (fs p) else fs p)"

definition restoredFiles :: "(string \<times> string) list \<Rightarrow> files \<Rightarrow> files" where
  "restoredFiles shebangs fs =
     (\<lambda>p. case map_of shebangs p of
             None \<Rightarrow> fs p
           | Some shebang \<Rightarrow> map_option (restoreShebang shebang) (fs p))"

section \<open>The transformation of the output directory\<close>

text \<open>
  \<^verbatim>\<open>Runner.run\<close> of jscodeshift is a parameter: from the path of a transformation, the
  paths to transform, the options and the files, it gives its statistics and the files
  it leaves. The constant fields of the options are left out, and so are the lines that
  are logged and the sum of the times at the end.
\<close>

record stats =
  ok :: nat
  nochange :: nat
  skip :: nat
  error :: nat

record transform_options =
  t_extension :: string  \<comment> \<open>the field \<^verbatim>\<open>extension\<close>\<close>
  t_cjs2esm :: options  \<comment> \<open>the field \<^verbatim>\<open>cjs2esm\<close>\<close>

type_synonym runner = "string \<Rightarrow> string list \<Rightarrow> transform_options \<Rightarrow> files \<Rightarrow> stats \<times> files"

definition transformations :: "string \<Rightarrow> string \<Rightarrow> string list" where
  \<comment> \<open>\<open>fiveToSixCodeModPath\<close> is the directory of the package \<^verbatim>\<open>5to6-codemod\<close>, \<open>dirname\<close> is
      \<^verbatim>\<open>__dirname\<close>\<close>
  "transformations fiveToSixCodeModPath dirname =
     [path_join [fiveToSixCodeModPath, ''cjs.js''],
      path_join [fiveToSixCodeModPath, ''exports.js''],
      path_join [fiveToSixCodeModPath, ''named-export-generation.js''],
      path_join [dirname, ''transformer.js'']]"

fun runTransformations ::
  "runner \<Rightarrow> string list \<Rightarrow> string list \<Rightarrow> transform_options \<Rightarrow> files \<Rightarrow> stats list \<times> files" where
  \<comment> \<open>the chain of promises: every transformation runs, one after the other\<close>
  "runTransformations run [] paths topts fs = ([], fs)"
| "runTransformations run (transformation # rest) paths topts fs =
     (case run transformation paths topts fs of
        (st, fs') \<Rightarrow>
          (case runTransformations run rest paths topts fs' of
             (sts, fs'') \<Rightarrow> (st # sts, fs'')))"

fun findIndex :: "('a \<Rightarrow> bool) \<Rightarrow> 'a list \<Rightarrow> nat option" where
  \<comment> \<open>\<^verbatim>\<open>xs.findIndex(p)\<close>; \<open>None\<close> is \<^verbatim>\<open>-1\<close>\<close>
  "findIndex p [] = None"
| "findIndex p (x # xs) =
     (if p x then Some 0 else map_option Suc (findIndex p xs))"

definition transformationError :: "string \<Rightarrow> error" where
  "transformationError transformation =
     Error (''At least one file couldn'' @ [CHR 0x27] @ ''t be transformed with `'' @
            parse_name transformation @ ''`'')"

definition transformOptionsFor :: "copied_file \<Rightarrow> options \<Rightarrow> transform_options" where
  \<comment> \<open>the constant \<^verbatim>\<open>transformOptions\<close>; \<open>first\<close> is \<^verbatim>\<open>files[0]\<close>\<close>
  "transformOptionsFor first opts =
     \<lparr>t_extension = (if ends_with_ci (file_to first) ''.mjs'' then ''mjs'' else ''js''),
      t_cjs2esm = opts\<rparr>"

definition shield :: "regexp_engine \<Rightarrow> copied_file list \<Rightarrow> options \<Rightarrow> files
    \<Rightarrow> (error + (string \<times> string) list) \<times> files" where
  \<comment> \<open>the files with a shebang and the variable \<^verbatim>\<open>shebangs\<close>; the empty list stands for
      \<^verbatim>\<open>undefined\<close> and for the empty object, which restore nothing\<close>
  "shield r fileList opts fs =
     (let withShebang =
            filter (\<lambda>file. list_ex (\<lambda>expression. re_test r expression (file_from file))
                              (filesWithShebang opts)) fileList
      in if withShebang \<noteq> [] then removeShebangs withShebang fs else (Inr [], fs))"

definition checkResults :: "string list \<Rightarrow> stats list \<Rightarrow> nat \<Rightarrow> error + unit" where
  \<comment> \<open>\<^verbatim>\<open>errorIndex\<close> and the error that is thrown; \<open>n\<close> is \<^verbatim>\<open>files.length\<close>\<close>
  "checkResults ts results n =
     (case findIndex (\<lambda>st. ok st + nochange st \<noteq> n) results of
        Some errorIndex \<Rightarrow> Inl (transformationError (ts ! errorIndex))
      | None \<Rightarrow> Inr ())"

definition transformOutput ::
  "runner \<Rightarrow> regexp_engine \<Rightarrow> string \<Rightarrow> string \<Rightarrow> copied_file list \<Rightarrow> options \<Rightarrow> files
     \<Rightarrow> (error + unit) \<times> files" where
  "transformOutput run r fiveToSixCodeModPath dirname fileList opts fs =
     (case fileList of
        [] \<Rightarrow> (Inl TypeError, fs)
      | first # _ \<Rightarrow>
          (case shield r fileList opts fs of
             (Inl err, fs1) \<Rightarrow> (Inl err, fs1)
           | (Inr shebangs, fs1) \<Rightarrow>
               (case runTransformations run (transformations fiveToSixCodeModPath dirname)
                       [outputDir opts] (transformOptionsFor first opts) fs1 of
                  (results, fs2) \<Rightarrow>
                    (case restoreShebangs shebangs fs2 of
                       (Inl err, fs3) \<Rightarrow> (Inl err, fs3)
                     | (Inr _, fs3) \<Rightarrow>
                         (checkResults (transformations fiveToSixCodeModPath dirname) results
                            (length fileList), fs3)))))"

section \<open>A small engine of regular expressions\<close>

text \<open>
  The examples run on the expressions the sources build from a text with no special
  character: \<^verbatim>\<open>^text\<close>, \<^verbatim>\<open>^text(/|$)\<close>, \<^verbatim>\<open>\.text$\<close> and \<^verbatim>\<open>\$\<close>, with a replacement
  that has no \<^verbatim>\<open>$\<close>. On these \<open>basic_regexp\<close> is the engine of the language; any
  other expression is outside it and never matches.
\<close>

definition is_plain :: "string \<Rightarrow> bool" where
  \<comment> \<open>no character that is special in a regular expression\<close>
  "is_plain s = list_all (\<lambda>c. c \<notin> set [CHR 0x5C, CHR ''^'', CHR ''$'', CHR ''.'', CHR ''|'',
       CHR ''?'', CHR ''*'', CHR ''+'', CHR ''('', CHR '')'', CHR ''['', CHR '']'', CHR ''{'', CHR ''}'']) s"

definition basic_test :: "string \<Rightarrow> string \<Rightarrow> bool" where
  "basic_test source s =
     (case source of
        [] \<Rightarrow> False
      | c # rest \<Rightarrow>
          if c = CHR ''^'' \<and> is_plain rest then prefix rest s
          else if c = CHR ''^'' \<and> suffix ''(/|$)'' rest \<and> is_plain (take (length rest - 5) rest)
            then (let l = take (length rest - 5) rest in s = l \<or> prefix (l @ ''/'') s)
          else if c = CHR 0x5C \<and> rest = ''$'' then CHR ''$'' \<in> set s
          else if c = CHR 0x5C \<and> rest \<noteq> [] \<and> hd rest = CHR ''.'' \<and> last rest = CHR ''$'' \<and>
                  is_plain (butlast (tl rest))
            then suffix (CHR ''.'' # butlast (tl rest)) s
          else False)"

definition basic_replace :: "string \<Rightarrow> string \<Rightarrow> string \<Rightarrow> string" where
  "basic_replace source s t =
     (case source of
        [] \<Rightarrow> s
      | c # rest \<Rightarrow>
          if c = CHR ''^'' \<and> is_plain rest
            then (if prefix rest s then t @ drop (length rest) s else s)
          else if c = CHR 0x5C \<and> rest = ''$'' then replace_first ''$'' t s
          else if c = CHR 0x5C \<and> rest \<noteq> [] \<and> hd rest = CHR ''.'' \<and> last rest = CHR ''$'' \<and>
                  is_plain (butlast (tl rest))
            then (if suffix (CHR ''.'' # butlast (tl rest)) s
                  then take (length s - length (butlast (tl rest)) - 1) s @ t else s)
          else s)"

definition basic_regexp :: regexp_engine where
  "basic_regexp = \<lparr>re_test = basic_test, re_replace = basic_replace\<rparr>"

section \<open>Examples of environments and options\<close>

definition example_options :: "string list \<Rightarrow> module_rule list \<Rightarrow> string list \<Rightarrow> options" where
  \<comment> \<open>the default options, with a list to ignore, rules of modules and files with shebangs\<close>
  "example_options ign mods shebangFiles =
     \<lparr>input = [''/p/src''], outputDir = ''/p/esm'', forceDirectory = None, modules = mods,
      extension = \<lparr>use = ''mjs'', ignore = ign\<rparr>, addModuleEntry = False,
      addPackageJson = True, filesWithShebang = shebangFiles\<rparr>"

definition example_rule :: "string \<Rightarrow> string \<Rightarrow> module_rule" where
  \<comment> \<open>a rule with no \<^verbatim>\<open>find\<close>\<close>
  "example_rule n p = \<lparr>mod_name = n, mod_path = p, mod_find = None\<rparr>"

definition empty_env :: env where
  \<comment> \<open>nothing is found on the disk\<close>
  "empty_env = \<lparr>cwd = ''/p'', pathExistsSync = (\<lambda>p. False), getAbsPathInfoSync = (\<lambda>p. None)\<rparr>"

definition example_env :: env where
  \<comment> \<open>the output directory \<^verbatim>\<open>/p/esm\<close> with the file \<^verbatim>\<open>b.mjs\<close>, the directory \<^verbatim>\<open>lib\<close> with
      \<^verbatim>\<open>index.js\<close>, the directory \<^verbatim>\<open>both\<close> with \<^verbatim>\<open>index.mjs\<close> and \<^verbatim>\<open>index.js\<close>, the
      directory \<^verbatim>\<open>pk\<close> with \<^verbatim>\<open>package.json\<close> and the directory \<^verbatim>\<open>empty\<close>; the package
      \<^verbatim>\<open>dep\<close> of \<^verbatim>\<open>/p/node_modules\<close> is a directory with \<^verbatim>\<open>index.js\<close>\<close>
  "example_env =
     \<lparr>cwd = ''/p'',
      pathExistsSync = (\<lambda>p. p \<in> set [''/p/esm/b.mjs'', ''/p/esm/lib/index.js'',
         ''/p/esm/both/index.mjs'', ''/p/esm/both/index.js'', ''/p/esm/pk/package.json'',
         ''/p/esm'', ''/p/esm/lib'', ''/p/esm/both'', ''/p/esm/pk'', ''/p/esm/empty'',
         ''/p/node_modules/dep'', ''/p/node_modules/dep/index.js'']),
      getAbsPathInfoSync = (\<lambda>p.
         if p = ''/p/esm/b'' \<or> p = ''/p/esm/b.mjs'' then Some \<lparr>info_path = ''/p/esm/b.mjs'', isFile = True\<rparr>
         else if strip_trailing_slash p \<in> set [''/p/esm'', ''/p/esm/lib'', ''/p/esm/both'',
                   ''/p/esm/pk'', ''/p/esm/empty'', ''/p/node_modules/dep'']
           then Some \<lparr>info_path = p, isFile = False\<rparr>
         else None)\<rparr>"

definition marking_runner :: runner where
  \<comment> \<open>an engine that writes, at the path of each transformation it runs, that it ran, and
      that fails on one file in its first transformation\<close>
  "marking_runner transformation paths topts fs =
     (if transformation = ''/cm/cjs.js'' then \<lparr>ok = 0, nochange = 0, skip = 0, error = 1\<rparr>
      else \<lparr>ok = 1, nochange = 0, skip = 0, error = 0\<rparr>,
      fs(transformation \<mapsto> ''ran''))"

definition example_file :: copied_file where
  \<comment> \<open>a copied file with no shebang\<close>
  "example_file = \<lparr>file_from = ''/p/src/a.js'', file_to = ''/p/esm/a.mjs''\<rparr>"

definition marked_files :: files where
  \<comment> \<open>the marks of the four transformations\<close>
  "marked_files = [''/cm/cjs.js'' \<mapsto> ''ran'', ''/cm/exports.js'' \<mapsto> ''ran'',
     ''/cm/named-export-generation.js'' \<mapsto> ''ran'', ''/own/transformer.js'' \<mapsto> ''ran'']"

definition bin_file :: copied_file where
  \<comment> \<open>a copied file with a shebang\<close>
  "bin_file = \<lparr>file_from = ''/p/src/bin.js'', file_to = ''/p/esm/bin.mjs''\<rparr>"

definition bin_files :: files where
  \<comment> \<open>a file of two lines, the first a shebang\<close>
  "bin_files = [''/p/esm/bin.mjs'' \<mapsto> ''#!/usr/bin/env node'' @ [CHR 0x0A] @ ''console.log(1)'']"

definition two_files :: files where
  \<comment> \<open>a file with a shebang, an empty line and a statement, and a file with no shebang\<close>
  "two_files = [''/p/esm/bin.mjs'' \<mapsto> ''#!/usr/bin/env node'' @ [CHR 0x0A, CHR 0x0A] @ ''console.log(1)'',
     ''/p/esm/a.mjs'' \<mapsto> ''const x = 1'']"

section \<open>The last segment of a joined path\<close>

text \<open>
  Joining a directory and the name of a file gives a path whose last segment is that
  name, whatever the directory.
\<close>

lemma no_sep_ends: "n \<noteq> [] \<Longrightarrow> c \<notin> set n \<Longrightarrow> hd n \<noteq> c \<and> last n \<noteq> c"
  by (metis hd_in_set last_in_set)

lemma split_on_no_sep: "c \<notin> set n \<Longrightarrow> split_on c n = [n]"
  by (induction n) auto

lemma split_on_not_Nil: "split_on c xs \<noteq> []"
  by (induction xs) (auto split: list.splits)

lemma split_on_append: "c \<notin> set n \<Longrightarrow> split_on c (d @ c # n) = split_on c d @ [n]"
  by (induction d) (auto simp: split_on_no_sep split_on_not_Nil split: list.splits)

lemma normalize_segments_snoc:
  "n \<noteq> [] \<Longrightarrow> n \<noteq> ''.'' \<Longrightarrow> n \<noteq> ''..'' \<Longrightarrow>
   normalize_segments a acc (xs @ [n]) = normalize_segments a acc xs @ [n]"
  by (induction xs arbitrary: acc) (auto split: list.splits)

lemma join_with_snoc:
  "join_with sep (xs @ [n]) = (if xs = [] then n else join_with sep xs @ sep @ n)"
  by (induction sep xs rule: join_with.induct) auto

lemma path_basename_suffix:
  "n \<noteq> [] \<Longrightarrow> CHR ''/'' \<notin> set n \<Longrightarrow> y = [] \<or> last y = CHR ''/'' \<Longrightarrow> path_basename (y @ n) = n"
proof -
  assume n: "n \<noteq> []" "CHR ''/'' \<notin> set n" and y: "y = [] \<or> last y = CHR ''/''"
  from n no_sep_ends[of n "CHR ''/''"] have hd: "hd (rev n) \<noteq> CHR ''/''" "rev n \<noteq> []"
    by (auto simp: hd_rev)
  then have d: "dropWhile (\<lambda>c. c = CHR ''/'') (rev n @ rev y) = rev n @ rev y"
    by (cases "rev n") auto
  from n have all: "\<forall>c \<in> set (rev n). c \<noteq> CHR ''/''" by auto
  from y have "rev y = [] \<or> hd (rev y) = CHR ''/''" by (auto simp: hd_rev)
  then have t: "takeWhile (\<lambda>c. c \<noteq> CHR ''/'') (rev n @ rev y) = rev n"
    using all by (cases "rev y") (auto simp: takeWhile_append)
  show ?thesis by (simp add: path_basename_def d t)
qed

lemma path_normalize_snoc:
  assumes "simple_name n"
  shows "\<exists>y. (y = [] \<or> last y = CHR ''/'') \<and> path_normalize (d @ CHR ''/'' # n) = y @ n"
proof -
  from assms have n: "n \<noteq> []" "CHR ''/'' \<notin> set n" "n \<noteq> ''.''" "n \<noteq> ''..''"
    by (auto simp: simple_name_def)
  let ?p = "d @ CHR ''/'' # n"
  let ?segs = "normalize_segments (hd ?p \<noteq> CHR ''/'') [] (split_on CHR ''/'' d)"
  have q: "normalizeString ?p (hd ?p \<noteq> CHR ''/'') =
      (if ?segs = [] then n else join_with ''/'' ?segs @ ''/'' @ n)"
    using n by (simp add: normalizeString_def split_on_append normalize_segments_snoc join_with_snoc)
  from n no_sep_ends[of n "CHR ''/''"] have l: "last ?p \<noteq> CHR ''/''" by auto
  show ?thesis
  proof (cases "hd ?p = CHR ''/''")
    case True
    then have "path_normalize ?p = (''/'' @ (if ?segs = [] then [] else join_with ''/'' ?segs @ ''/'')) @ n"
      using q l n by (simp add: path_normalize_def Let_def)
    then show ?thesis by (intro exI[of _ "''/'' @ (if ?segs = [] then [] else join_with ''/'' ?segs @ ''/'')"]) auto
  next
    case False
    then have "path_normalize ?p = (if ?segs = [] then [] else join_with ''/'' ?segs @ ''/'') @ n"
      using q l n by (simp add: path_normalize_def Let_def)
    then show ?thesis by (intro exI[of _ "(if ?segs = [] then [] else join_with ''/'' ?segs @ ''/'')"]) auto
  qed
qed

lemma path_normalize_simple:
  assumes "simple_name n"
  shows "path_normalize n = n"
proof -
  from assms have n: "n \<noteq> []" "CHR ''/'' \<notin> set n" "n \<noteq> ''.''" "n \<noteq> ''..''"
    by (auto simp: simple_name_def)
  with no_sep_ends[of n "CHR ''/''"] have "hd n \<noteq> CHR ''/''" "last n \<noteq> CHR ''/''" by auto
  then show ?thesis using n
    by (simp add: path_normalize_def normalizeString_def split_on_no_sep Let_def)
qed

lemma path_join_simple:
  assumes "simple_name n"
  shows "\<exists>y. (y = [] \<or> last y = CHR ''/'') \<and> path_join [d, n] = y @ n"
proof (cases "d = []")
  case True
  with assms have "path_join [d, n] = [] @ n"
    by (simp add: path_join_def path_normalize_simple simple_name_def)
  then show ?thesis by blast
next
  case False
  with assms have "path_join [d, n] = path_normalize (d @ CHR ''/'' # n)"
    by (simp add: path_join_def simple_name_def)
  with path_normalize_snoc[OF assms, of d] show ?thesis by simp
qed

lemma path_basename_join:
  assumes "simple_name n"
  shows "path_basename (path_join [d, n]) = n"
proof -
  from path_join_simple[OF assms, of d] obtain y where
    y: "y = [] \<or> last y = CHR ''/''" "path_join [d, n] = y @ n" by blast
  from assms have "n \<noteq> []" "CHR ''/'' \<notin> set n" by (auto simp: simple_name_def)
  with y show ?thesis by (simp add: path_basename_suffix)
qed

lemma dropWhile_all: "(\<forall>c\<in>set xs. P c) \<Longrightarrow> dropWhile P xs = []"
  by (induction xs) auto

lemma path_basename_root: "path_basename (CHR ''/'' # rest) = path_basename rest"
proof (cases "\<forall>c\<in>set rest. c = CHR ''/''")
  case True
  then have "dropWhile (\<lambda>c. c = CHR ''/'') (rev rest @ ''/'') = []"
    by (intro dropWhile_all) auto
  moreover from True have "dropWhile (\<lambda>c. c = CHR ''/'') (rev rest) = []"
    by (intro dropWhile_all) auto
  ultimately show ?thesis by (simp only: path_basename_def rev.simps)
next
  case False
  then obtain x where "x \<in> set (rev rest)" "\<not> x = CHR ''/''" by auto
  then have "dropWhile (\<lambda>c. c = CHR ''/'') (rev rest @ ''/'') =
             dropWhile (\<lambda>c. c = CHR ''/'') (rev rest) @ ''/''"
    by (rule dropWhile_append1)
  then show ?thesis by (simp only: path_basename_def rev.simps takeWhile_tail simp_thms)
qed

lemma parse_base_eq: "parse_base p = path_basename p"
  by (cases p) (auto simp: parse_base_def path_basename_root)

lemma parse_base_join: "simple_name n \<Longrightarrow> parse_base (path_join [d, n]) = n"
  by (simp add: parse_base_eq path_basename_join)

lemma parse_name_join:
  assumes "simple_name n"
  shows "parse_name (path_join [d, n]) =
         take (length n - length (if CHR ''.'' \<notin> set n then []
                 else if length (takeWhile (\<lambda>c. c \<noteq> CHR ''.'') (rev n)) + 1 = length n then []
                 else CHR ''.'' # rev (takeWhile (\<lambda>c. c \<noteq> CHR ''.'') (rev n)))) n"
  using assms by (simp add: parse_name_def parse_ext_def Let_def parse_base_join simple_name_def)

section \<open>The resolver of specifiers\<close>

text \<open>
  The last statement of \<^verbatim>\<open>updatePath\<close>. A specifier that is \<^verbatim>\<open>.\<close> or begins with \<^verbatim>\<open>./\<close>
  is replaced by a specifier that begins with \<^verbatim>\<open>./\<close>: when the replacement computed
  from the disk does not begin with \<^verbatim>\<open>./\<close> (joining paths strips it), \<^verbatim>\<open>./\<close> is put in
  front of it, and otherwise the replacement is returned as it is.
\<close>

lemma updatePath_relative_marker:
  assumes "importPath = ''.'' \<or> startsWith importPath ''./''"
  shows "startsWith (updatePath e base importPath) ''./'' \<and>
         updatePath e base importPath =
           (if startsWith (replacementFor e (absPath_of e base importPath) importPath) ''./''
            then replacementFor e (absPath_of e base importPath) importPath
            else ''./'' @ replacementFor e (absPath_of e base importPath) importPath)"
  using assms by (auto simp add: updatePath_def hotfix_def startsWith_def)

text \<open>
  The scenario of the file \<^verbatim>\<open>a.js\<close> that imports \<^verbatim>\<open>./b\<close>, with \<^verbatim>\<open>b.mjs\<close> in the
  output directory: joining gives \<^verbatim>\<open>b.mjs\<close>, and the import becomes \<^verbatim>\<open>./b.mjs\<close>.
\<close>

lemma updatePath_relative_marker_example:
  "startsWith (updatePath example_env ''/p/esm'' ''./b'') ''./'' \<and>
   updatePath example_env ''/p/esm'' ''./b'' = ''./b.mjs'' \<and>
   replacementFor example_env (absPath_of example_env ''/p/esm'' ''./b'') ''./b'' = ''b.mjs''"
proof -
  have h: "''./b'' = ''.'' \<or> startsWith ''./b'' ''./''"
    by (simp add: startsWith_def)
  have r: "replacementFor example_env (absPath_of example_env ''/p/esm'' ''./b'') ''./b'' = ''b.mjs''"
    by code_simp
  have n: "\<not> startsWith ''b.mjs'' ''./''"
    by (simp add: startsWith_def)
  from updatePath_relative_marker [OF h, of example_env "''/p/esm''"] r n
  show ?thesis by (simp add: startsWith_def)
qed


text \<open>
  C7. When nothing is found at the path a specifier resolves to, \<^verbatim>\<open>updatePath\<close> returns
  the specifier as it is. The directory of the importing file is found on the disk, as
  it is whenever a file that was read is transformed.
\<close>

theorem updatePath_nothing_found:
  assumes "getAbsPathInfoSync e (absPath_of e base importPath) = None"
      and "getAbsPathInfoSync e (path_join [base, ''.'']) \<noteq> None"
  shows "updatePath e base importPath = importPath"
proof -
  have "importPath \<noteq> ''.''"
  proof
    assume "importPath = ''.''"
    then have "absPath_of e base importPath = path_join [base, ''.'']"
      by (simp add: absPath_of_def startsWith_def)
    with assms show False by simp
  qed
  with assms(1) show ?thesis
    by (auto simp add: updatePath_def hotfix_def replacementFor_def)
qed

theorem updatePath_nothing_found_witness:
  "getAbsPathInfoSync example_env (absPath_of example_env ''/p/esm'' ''lodash/fp'') = None \<and>
   getAbsPathInfoSync example_env (absPath_of example_env ''/p/esm'' ''./none'') = None \<and>
   getAbsPathInfoSync example_env (path_join [''/p/esm'', ''.''])
     = Some \<lparr>info_path = ''/p/esm'', isFile = False\<rparr> \<and>
   updatePath example_env ''/p/esm'' ''lodash/fp'' = ''lodash/fp'' \<and>
   updatePath example_env ''/p/esm'' ''./none'' = ''./none''"
proof -
  have h1: "getAbsPathInfoSync example_env (absPath_of example_env ''/p/esm'' ''lodash/fp'') = None"
    by code_simp
  have h2: "getAbsPathInfoSync example_env (absPath_of example_env ''/p/esm'' ''./none'') = None"
    by code_simp
  have b: "getAbsPathInfoSync example_env (path_join [''/p/esm'', ''.''])
     = Some \<lparr>info_path = ''/p/esm'', isFile = False\<rparr>"
    by code_simp
  then have d: "getAbsPathInfoSync example_env (path_join [''/p/esm'', ''.'']) \<noteq> None"
    by simp
  from h1 h2 b updatePath_nothing_found [OF h1 d] updatePath_nothing_found [OF h2 d]
  show ?thesis by simp
qed

text \<open>
  C4, as the sources have it. When a specifier other than \<^verbatim>\<open>.\<close> and \<^verbatim>\<open>./\<close> resolves
  to a directory with a \<^verbatim>\<open>package.json\<close>, \<^verbatim>\<open>updatePath\<close> returns it as it is if it
  does not end with a slash, and without its last slash if it does.
\<close>

theorem updatePath_manifest:
  assumes "getAbsPathInfoSync e (absPath_of e base importPath) = Some info"
      and "\<not> isFile info"
      and "pathExistsSync e (path_join [absPath_of e base importPath, ''package.json''])"
      and "importPath \<noteq> ''.''" and "importPath \<noteq> ''./''"
  shows "(importPath = [] \<or> last importPath \<noteq> CHR ''/'' \<longrightarrow>
            updatePath e base importPath = importPath) \<and>
         (\<forall>q. q \<noteq> [] \<and> importPath = q @ ''/'' \<longrightarrow> updatePath e base importPath = q)"
proof -
  have r: "replacementFor e (absPath_of e base importPath) importPath =
           (if strip_trailing_slash importPath = [] then importPath
            else strip_trailing_slash importPath)"
    using assms(1,2,3) by (simp add: replacementFor_def createReplacementForFolder_def)
  have a: "updatePath e base importPath = importPath"
    if "importPath = [] \<or> last importPath \<noteq> CHR ''/''"
    using that assms(4) r
    by (auto simp add: updatePath_def hotfix_def strip_trailing_slash_def)
  have b: "updatePath e base importPath = q" if "q \<noteq> []" "importPath = q @ ''/''" for q
  proof -
    from that have s: "replacementFor e (absPath_of e base importPath) importPath = q"
      using r by (simp add: strip_trailing_slash_def)
    have "startsWith q ''./''" if "startsWith importPath ''./''"
    proof (cases q)
      case Nil
      with \<open>q \<noteq> []\<close> show ?thesis by simp
    next
      case (Cons c cs)
      with that \<open>importPath = q @ ''/''\<close> assms(5) show ?thesis
        by (cases cs) (auto simp add: startsWith_def)
    qed
    with s assms(4) show ?thesis
      by (auto simp add: updatePath_def hotfix_def)
  qed
  from a b show ?thesis by blast
qed

theorem updatePath_manifest_witness:
  "updatePath example_env ''/p/esm'' ''./pk'' = ''./pk'' \<and>
   updatePath example_env ''/p/esm'' ''./pk/'' = ''./pk''"
proof -
  let ?i1 = "\<lparr>info_path = ''/p/esm/pk'', isFile = False\<rparr>"
  let ?i2 = "\<lparr>info_path = ''/p/esm/pk/'', isFile = False\<rparr>"
  have a1: "getAbsPathInfoSync example_env (absPath_of example_env ''/p/esm'' ''./pk'') = Some ?i1"
    by code_simp
  have a2: "getAbsPathInfoSync example_env (absPath_of example_env ''/p/esm'' ''./pk/'') = Some ?i2"
    by code_simp
  have f: "\<not> isFile ?i1" "\<not> isFile ?i2" by simp_all
  have p1: "pathExistsSync example_env (path_join [absPath_of example_env ''/p/esm'' ''./pk'', ''package.json''])"
    by code_simp
  have p2: "pathExistsSync example_env (path_join [absPath_of example_env ''/p/esm'' ''./pk/'', ''package.json''])"
    by code_simp
  have n: "''./pk'' \<noteq> ''.''" "''./pk'' \<noteq> ''./''" "''./pk/'' \<noteq> ''.''" "''./pk/'' \<noteq> ''./''"
    by simp_all
  from updatePath_manifest [OF a1 f(1) p1 n(1,2)]
  have "updatePath example_env ''/p/esm'' ''./pk'' = ''./pk''" by simp
  moreover from updatePath_manifest [OF a2 f(2) p2 n(3,4)]
  have "updatePath example_env ''/p/esm'' ''./pk/'' = ''./pk''" by simp
  ultimately show ?thesis by simp
qed

text \<open>
  The specifier \<^verbatim>\<open>./pk/\<close> of a directory with a \<^verbatim>\<open>package.json\<close> loses its slash.
\<close>

theorem updatePath_manifest_trailing_slash:
  "getAbsPathInfoSync example_env (absPath_of example_env ''/p/esm'' ''./pk/'')
     = Some \<lparr>info_path = ''/p/esm/pk/'', isFile = False\<rparr> \<and>
   pathExistsSync example_env (path_join [absPath_of example_env ''/p/esm'' ''./pk/'', ''package.json'']) \<and>
   updatePath example_env ''/p/esm'' ''./pk/'' = ''./pk''"
  by code_simp

section \<open>Directories and their entry files\<close>

lemma path_normalize_not_Nil: "path_normalize p \<noteq> []"
  by (simp add: path_normalize_def Let_def)

lemma path_join_not_Nil: "path_join args \<noteq> []"
  by (simp add: path_join_def path_normalize_not_Nil split: list.splits)

lemma findFileSync_index:
  "findFileSync e [''index.mjs'', ''index.js''] d =
     (if pathExistsSync e (path_join [d, ''index.mjs'']) then Some (path_join [d, ''index.mjs''])
      else if pathExistsSync e (path_join [d, ''index.js'']) then Some (path_join [d, ''index.js''])
      else None)"
  by (simp add: Let_def)

lemma createReplacementForFolder_index:
  assumes "\<not> pathExistsSync e (path_join [absPath, ''package.json''])"
  shows "createReplacementForFolder e absPath importPath =
     (if pathExistsSync e (path_join [absPath, ''index.mjs''])
        then Some (path_join [importPath, ''index.mjs''])
      else if pathExistsSync e (path_join [absPath, ''index.js''])
        then Some (path_join [importPath, ''index.js''])
      else None)"
proof -
  have m: "path_basename (path_join [absPath, ''index.mjs'']) = ''index.mjs''"
    by (rule path_basename_join) (simp add: simple_name_def)
  have j: "path_basename (path_join [absPath, ''index.js'']) = ''index.js''"
    by (rule path_basename_join) (simp add: simple_name_def)
  show ?thesis
    using assms
    by (simp add: createReplacementForFolder_def findFileSync_index path_join_not_Nil m j
             del: findFileSync.simps)
qed

lemma hotfix_basename:
  assumes "simple_name n" and "x = y @ n" and "y = [] \<or> last y = CHR ''/''"
  shows "path_basename (hotfix importPath x) = n"
proof -
  from assms(1) have n: "n \<noteq> []" "CHR ''/'' \<notin> set n" by (auto simp: simple_name_def)
  have "hotfix importPath x = y @ n \<or> hotfix importPath x = (''./'' @ y) @ n"
    using assms(2) by (auto simp: hotfix_def)
  moreover have "''./'' @ y = [] \<or> last (''./'' @ y) = CHR ''/''"
    using assms(3) by auto
  ultimately show ?thesis
    using path_basename_suffix [OF n assms(3)] path_basename_suffix [OF n, of "''./'' @ y"]
    by auto
qed

lemma hotfix_join_basename:
  assumes "simple_name n"
  shows "path_basename (hotfix importPath (path_join [importPath, n])) = n"
proof -
  from path_join_simple [OF assms, of importPath] obtain y where
    "y = [] \<or> last y = CHR ''/''" "path_join [importPath, n] = y @ n" by blast
  with assms show ?thesis by (intro hotfix_basename [of n _ y]) auto
qed

text \<open>
  A specifier that resolves to a directory with no \<^verbatim>\<open>package.json\<close>: \<^verbatim>\<open>index.mjs\<close> is
  probed first and \<^verbatim>\<open>index.js\<close> second; the name of the first that exists is joined to
  the specifier, and it is the last segment of the result. If neither exists, every
  specifier other than \<^verbatim>\<open>.\<close> is returned as it is.
\<close>

lemma updatePath_folder_entry:
  assumes "getAbsPathInfoSync e (absPath_of e base importPath) = Some info"
      and "\<not> isFile info"
      and "\<not> pathExistsSync e (path_join [absPath_of e base importPath, ''package.json''])"
  shows "(pathExistsSync e (path_join [absPath_of e base importPath, ''index.mjs'']) \<longrightarrow>
            updatePath e base importPath = hotfix importPath (path_join [importPath, ''index.mjs'']) \<and>
            path_basename (updatePath e base importPath) = ''index.mjs'') \<and>
         (\<not> pathExistsSync e (path_join [absPath_of e base importPath, ''index.mjs'']) \<and>
          pathExistsSync e (path_join [absPath_of e base importPath, ''index.js'']) \<longrightarrow>
            updatePath e base importPath = hotfix importPath (path_join [importPath, ''index.js'']) \<and>
            path_basename (updatePath e base importPath) = ''index.js'') \<and>
         (\<not> pathExistsSync e (path_join [absPath_of e base importPath, ''index.mjs'']) \<and>
          \<not> pathExistsSync e (path_join [absPath_of e base importPath, ''index.js'']) \<and>
          importPath \<noteq> ''.'' \<longrightarrow>
            updatePath e base importPath = importPath)"
proof -
  have m: "path_basename (hotfix importPath (path_join [importPath, ''index.mjs''])) = ''index.mjs''"
    by (rule hotfix_join_basename) (simp add: simple_name_def)
  have j: "path_basename (hotfix importPath (path_join [importPath, ''index.js''])) = ''index.js''"
    by (rule hotfix_join_basename) (simp add: simple_name_def)
  have r: "replacementFor e (absPath_of e base importPath) importPath =
     (if pathExistsSync e (path_join [absPath_of e base importPath, ''index.mjs''])
        then path_join [importPath, ''index.mjs'']
      else if pathExistsSync e (path_join [absPath_of e base importPath, ''index.js''])
        then path_join [importPath, ''index.js'']
      else importPath)"
    using assms
    by (simp add: replacementFor_def createReplacementForFolder_index path_join_not_Nil)
  have u: "hotfix importPath importPath = importPath" if "importPath \<noteq> ''.''"
    using that by (auto simp add: hotfix_def)
  show ?thesis
    unfolding updatePath_def r using m j u by simp
qed

lemma updatePath_folder_entry_example:
  "updatePath example_env ''/p/esm'' ''./both'' = ''./both/index.mjs'' \<and>
   updatePath example_env ''/p/esm'' ''./lib'' = ''./lib/index.js'' \<and>
   updatePath example_env ''/p/esm'' ''./empty'' = ''./empty''"
proof -
  let ?abs = "\<lambda>p. absPath_of example_env ''/p/esm'' p"
  have i: "getAbsPathInfoSync example_env (?abs ''./both'') = Some \<lparr>info_path = ''/p/esm/both'', isFile = False\<rparr>"
          "getAbsPathInfoSync example_env (?abs ''./lib'') = Some \<lparr>info_path = ''/p/esm/lib'', isFile = False\<rparr>"
          "getAbsPathInfoSync example_env (?abs ''./empty'') = Some \<lparr>info_path = ''/p/esm/empty'', isFile = False\<rparr>"
    by code_simp+
  have f: "\<not> isFile \<lparr>info_path = p, isFile = False\<rparr>" for p by simp
  have n: "\<not> pathExistsSync example_env (path_join [?abs ''./both'', ''package.json''])"
          "\<not> pathExistsSync example_env (path_join [?abs ''./lib'', ''package.json''])"
          "\<not> pathExistsSync example_env (path_join [?abs ''./empty'', ''package.json''])"
    by code_simp+
  have x: "pathExistsSync example_env (path_join [?abs ''./both'', ''index.mjs''])"
          "\<not> pathExistsSync example_env (path_join [?abs ''./lib'', ''index.mjs''])"
          "pathExistsSync example_env (path_join [?abs ''./lib'', ''index.js''])"
          "\<not> pathExistsSync example_env (path_join [?abs ''./empty'', ''index.mjs''])"
          "\<not> pathExistsSync example_env (path_join [?abs ''./empty'', ''index.js''])"
    by code_simp+
  have h: "hotfix ''./both'' (path_join [''./both'', ''index.mjs'']) = ''./both/index.mjs''"
          "hotfix ''./lib'' (path_join [''./lib'', ''index.js'']) = ''./lib/index.js''"
    by code_simp+
  from updatePath_folder_entry [OF i(1) f n(1)] x(1) h(1)
  have "updatePath example_env ''/p/esm'' ''./both'' = ''./both/index.mjs''" by simp
  moreover from updatePath_folder_entry [OF i(2) f n(2)] x(2,3) h(2)
  have "updatePath example_env ''/p/esm'' ''./lib'' = ''./lib/index.js''" by simp
  moreover from updatePath_folder_entry [OF i(3) f n(3)] x(4,5)
  have "updatePath example_env ''/p/esm'' ''./empty'' = ''./empty''" by simp
  ultimately show ?thesis by simp
qed

text \<open>
  C8. The specifier \<^verbatim>\<open>.\<close> in a file of the directory \<^verbatim>\<open>/p/esm\<close>, which has no
  \<^verbatim>\<open>package.json\<close> and no entry file. \<^verbatim>\<open>createReplacementForFolder\<close> returns \<^verbatim>\<open>null\<close> and
  the replacement is the specifier itself; the last statement of \<^verbatim>\<open>updatePath\<close> then
  puts \<^verbatim>\<open>./\<close> in front of it: the result is \<^verbatim>\<open>./.\<close>, not \<^verbatim>\<open>.\<close>.
\<close>

theorem updatePath_folder_dot:
  "getAbsPathInfoSync example_env (absPath_of example_env ''/p/esm'' ''.'')
     = Some \<lparr>info_path = ''/p/esm'', isFile = False\<rparr> \<and>
   createReplacementForFolder example_env (absPath_of example_env ''/p/esm'' ''.'') ''.'' = None \<and>
   replacementFor example_env (absPath_of example_env ''/p/esm'' ''.'') ''.'' = ''.'' \<and>
   updatePath example_env ''/p/esm'' ''.'' = ''./.''"
  by code_simp

section \<open>The ignore list and the rules of the modules\<close>

lemma replaceEach_length:
  "replaceEach f xs = Inr ys \<Longrightarrow> length ys = length xs"
  by (induction xs arbitrary: ys) (auto split: sum.splits)

lemma replaceEach_nth:
  "replaceEach f xs = Inr ys \<Longrightarrow> i < length xs \<Longrightarrow> f (xs ! i) = Inr (ys ! i)"
proof (induction xs arbitrary: ys i)
  case Nil
  then show ?case by simp
next
  case (Cons x xs)
  from Cons.prems(1) obtain y ys' where
    y: "f x = Inr y" "replaceEach f xs = Inr ys'" "ys = y # ys'"
    by (auto split: sum.splits)
  show ?case
  proof (cases i)
    case 0
    with y show ?thesis by simp
  next
    case (Suc j)
    with Cons.prems(2) have "j < length xs" by simp
    from Cons.IH [OF y(2) this] Suc y(3) show ?thesis by simp
  qed
qed

lemma replaceEach_all:
  "(\<And>x. x \<in> set xs \<Longrightarrow> f x = Inr (g x)) \<Longrightarrow> replaceEach f xs = Inr (map g xs)"
  by (induction xs) auto

lemma updateModule_unchanged:
  "\<not> (is_import st \<and> (\<exists>p. source_of st = Some p \<and> matchesModule r mods p)) \<Longrightarrow>
   updateModule r mods st = Inr st"
  by (cases st) (simp_all add: is_import_def source_of_def)

lemma ignored_not_updated:
  assumes "list_ex (\<lambda>exp. re_test r exp p) ign" and "source_of st = Some p"
  shows "updateImport r e ign base st = st \<and>
         updateExportNamed r e ign base st = st \<and>
         updateExportAll r e ign base st = st"
proof -
  from assms(1) have n: "\<not> needsPathUpdate r ign (Some p)"
    by (simp add: needsPathUpdate_def)
  show ?thesis
  proof (cases st)
    case (ImportDeclaration q)
    with assms(2) n show ?thesis by (simp add: source_of_def)
  next
    case (ExportNamedDeclaration s)
    with assms(2) n show ?thesis by (simp add: source_of_def)
  next
    case (ExportAllDeclaration q)
    with assms(2) n show ?thesis by (simp add: source_of_def)
  next
    case OtherStatement
    then show ?thesis by simp
  qed
qed

lemma addExtensions_ignored:
  assumes "list_ex (\<lambda>exp. re_test r exp p) ign" and "i < length root"
      and "source_of (root ! i) = Some p"
  shows "addExtensions r e ign base root ! i = root ! i"
  using assms by (simp add: addExtensions_def ignored_not_updated)

lemma addExtensions_length: "length (addExtensions r e ign base root) = length root"
  by (simp add: addExtensions_def)

text \<open>
  C3, as the sources have it. A node whose specifier matches an expression of the
  ignore list is left as it is by the passes that add the extensions. The pass of the
  modules does not read the ignore list: the node is left as it is by the whole
  transformation when it is not an import or when no rule of the modules matches its
  specifier, and an import whose specifier matches a rule is still replaced by that
  pass.
\<close>

theorem transform_ignored:
  assumes "list_ex (\<lambda>exp. re_test r exp p) (ignore (extension cjs2esm))"
      and "i < length root"
      and "source_of (root ! i) = Some p"
  shows "addExtensions r e (ignore (extension cjs2esm)) (path_dirname file_path) root ! i = root ! i \<and>
         (\<forall>root'. transform r e cjs2esm file_path root = Inr root' \<and>
             \<not> (is_import (root ! i) \<and> matchesModule r (modules cjs2esm) p) \<longrightarrow>
             root' ! i = root ! i) \<and>
         (\<forall>root'. transform r e cjs2esm file_path root = Inr root' \<and>
             is_import (root ! i) \<and> matchesModule r (modules cjs2esm) p \<longrightarrow>
             (\<exists>q. replaceModule r (modules cjs2esm) p = Inr q \<and> root' ! i = ImportDeclaration q))"
proof -
  let ?root1 = "addExtensions r e (ignore (extension cjs2esm)) (path_dirname file_path) root"
  have a: "?root1 ! i = root ! i"
    using assms by (rule addExtensions_ignored)
  have l: "i < length ?root1"
    using assms(2) by (simp add: addExtensions_length)
  have m: "updateModule r (modules cjs2esm) (root ! i) = Inr (root' ! i)"
    if "transform r e cjs2esm file_path root = Inr root'" "modules cjs2esm \<noteq> []" for root'
  proof -
    from that have "replaceEach (updateModule r (modules cjs2esm)) ?root1 = Inr root'"
      by (simp add: transform_def Let_def updateModules_def)
    from replaceEach_nth [OF this l] a show ?thesis by simp
  qed
  have b: "root' ! i = root ! i"
    if t: "transform r e cjs2esm file_path root = Inr root'"
       and n: "\<not> (is_import (root ! i) \<and> matchesModule r (modules cjs2esm) p)" for root'
  proof (cases "modules cjs2esm = []")
    case True
    with t a show ?thesis by (simp add: transform_def Let_def)
  next
    case False
    from n assms(3) have "updateModule r (modules cjs2esm) (root ! i) = Inr (root ! i)"
      by (intro updateModule_unchanged) auto
    with m [OF t False] show ?thesis by simp
  qed
  have c: "\<exists>q. replaceModule r (modules cjs2esm) p = Inr q \<and> root' ! i = ImportDeclaration q"
    if t: "transform r e cjs2esm file_path root = Inr root'"
       and i: "is_import (root ! i)" and mm: "matchesModule r (modules cjs2esm) p" for root'
  proof -
    from mm have ne: "modules cjs2esm \<noteq> []" by (auto simp: matchesModule_def)
    from i assms(3) have "root ! i = ImportDeclaration p"
      by (cases "root ! i") (simp_all add: is_import_def source_of_def)
    with m [OF t ne] mm show ?thesis
      by (cases "replaceModule r (modules cjs2esm) p") auto
  qed
  from a b c show ?thesis by blast
qed

text \<open>
  With \<^verbatim>\<open>^dep\<close> in the ignore list the export from \<^verbatim>\<open>dep\<close> is left as it is; without
  it, the export becomes \<^verbatim>\<open>dep/index.js\<close>.
\<close>

theorem transform_ignored_witness:
  "addExtensions basic_regexp example_env [''^dep''] (path_dirname ''/p/esm/a.mjs'')
     [ExportAllDeclaration ''dep'', ImportDeclaration ''./b''] ! 0 = ExportAllDeclaration ''dep'' \<and>
   transform basic_regexp example_env
     (example_options [''^dep''] [example_rule ''dep'' ''./shared/dep''] [])
     ''/p/esm/a.mjs'' [ExportAllDeclaration ''dep'', ImportDeclaration ''./b'']
   = Inr [ExportAllDeclaration ''dep'', ImportDeclaration ''./b.mjs''] \<and>
   transform basic_regexp example_env
     (example_options [] [example_rule ''dep'' ''./shared/dep''] [])
     ''/p/esm/a.mjs'' [ExportAllDeclaration ''dep'', ImportDeclaration ''./b'']
   = Inr [ExportAllDeclaration ''dep/index.js'', ImportDeclaration ''./b.mjs'']"
proof -
  let ?cfg = "example_options [''^dep''] [example_rule ''dep'' ''./shared/dep''] []"
  let ?root = "[ExportAllDeclaration ''dep'', ImportDeclaration ''./b'']"
  have g: "ignore (extension ?cfg) = [''^dep'']"
    by (simp add: example_options_def)
  have h1: "list_ex (\<lambda>exp. re_test basic_regexp exp ''dep'') (ignore (extension ?cfg))"
    unfolding g by code_simp
  have h2: "0 < length ?root" by simp
  have h3: "source_of (?root ! 0) = Some ''dep''" by (simp add: source_of_def)
  have t: "transform basic_regexp example_env ?cfg ''/p/esm/a.mjs'' ?root
             = Inr [ExportAllDeclaration ''dep'', ImportDeclaration ''./b.mjs'']"
    by code_simp
  have u: "transform basic_regexp example_env
     (example_options [] [example_rule ''dep'' ''./shared/dep''] [])
     ''/p/esm/a.mjs'' ?root
   = Inr [ExportAllDeclaration ''dep/index.js'', ImportDeclaration ''./b.mjs'']"
    by code_simp
  from transform_ignored [OF h1 h2 h3, of example_env "''/p/esm/a.mjs''"] g t u
  show ?thesis by simp
qed

text \<open>
  An import of \<^verbatim>\<open>utils/helpers\<close> with \<^verbatim>\<open>^utils\<close> in the ignore list and a rule for the
  module \<^verbatim>\<open>utils\<close>: the specifier matches the ignore list and is replaced all the same.
\<close>

theorem transform_ignored_alias:
  "list_ex (\<lambda>exp. re_test basic_regexp exp ''utils/helpers'') [''^utils''] \<and>
   transform basic_regexp empty_env
     (example_options [''^utils''] [example_rule ''utils'' ''./shared/utils''] [])
     ''/p/esm/a.mjs'' [ImportDeclaration ''utils/helpers'']
   = Inr [ImportDeclaration ''./shared/utils/helpers'']"
proof -
  have "list_ex (\<lambda>exp. re_test basic_regexp exp ''utils/helpers'') [''^utils'']"
    by code_simp
  moreover have "transform basic_regexp empty_env
     (example_options [''^utils''] [example_rule ''utils'' ''./shared/utils''] [])
     ''/p/esm/a.mjs'' [ImportDeclaration ''utils/helpers'']
   = Inr [ImportDeclaration ''./shared/utils/helpers'']"
    by code_simp
  ultimately show ?thesis by simp
qed

text \<open>
  With the rule for \<^verbatim>\<open>react-dom\<close> alone, \<^verbatim>\<open>react-dom/server\<close> becomes
  \<^verbatim>\<open>preact/compat/server\<close>.
\<close>

lemma transform_single_rule:
  "transform basic_regexp empty_env
     (example_options [] [example_rule ''react-dom'' ''preact/compat''] [])
     ''/p/esm/a.mjs'' [ImportDeclaration ''react-dom/server'']
   = Inr [ImportDeclaration ''preact/compat/server'']"
  by code_simp

text \<open>
  C5. The scenario of the rule that maps \<^verbatim>\<open>utils\<close> to \<^verbatim>\<open>./shared/utils\<close>: the import of
  \<^verbatim>\<open>utils/helpers\<close> is replaced, the exports from it and the import of
  \<^verbatim>\<open>utilsx/helpers\<close> are not.
\<close>

lemma transform_alias_scenario:
  "transform basic_regexp empty_env
     (example_options [] [example_rule ''utils'' ''./shared/utils''] [])
     ''/p/esm/a.mjs'' [ImportDeclaration ''utils/helpers'', ExportAllDeclaration ''utils/helpers'',
        ExportNamedDeclaration (Some ''utils/helpers''), ImportDeclaration ''utilsx/helpers'']
   = Inr [ImportDeclaration ''./shared/utils/helpers'', ExportAllDeclaration ''utils/helpers'',
        ExportNamedDeclaration (Some ''utils/helpers''), ImportDeclaration ''utilsx/helpers'']"
  by code_simp

text \<open>
  C5, with a rule for \<^verbatim>\<open>react\<close> before the rule for \<^verbatim>\<open>react-dom\<close>. The filter of
  the pass matches \<^verbatim>\<open>react-dom/server\<close> with the rule \<^verbatim>\<open>react-dom\<close>, a whole segment,
  and not with the rule \<^verbatim>\<open>react\<close>. The rule that replaces is looked up with
  \<^verbatim>\<open>startsWith\<close>, and the first rule whose name begins the specifier is \<^verbatim>\<open>react\<close>: the
  result is \<^verbatim>\<open>preact/compat-dom/server\<close>, not \<^verbatim>\<open>preact/compat/server\<close>.
\<close>

theorem transform_first_prefix_rule:
  "matchesModule basic_regexp
     [example_rule ''react'' ''preact/compat'', example_rule ''react-dom'' ''preact/compat'']
     ''react-dom/server'' \<and>
   \<not> re_test basic_regexp (module_regex (example_rule ''react'' ''preact/compat'')) ''react-dom/server'' \<and>
   re_test basic_regexp (module_regex (example_rule ''react-dom'' ''preact/compat'')) ''react-dom/server'' \<and>
   transform basic_regexp empty_env
     (example_options []
        [example_rule ''react'' ''preact/compat'', example_rule ''react-dom'' ''preact/compat''] [])
     ''/p/esm/a.mjs'' [ImportDeclaration ''react-dom/server'']
   = Inr [ImportDeclaration ''preact/compat-dom/server'']"
proof -
  have "matchesModule basic_regexp
     [example_rule ''react'' ''preact/compat'', example_rule ''react-dom'' ''preact/compat'']
     ''react-dom/server''"
    by code_simp
  moreover have "\<not> re_test basic_regexp (module_regex (example_rule ''react'' ''preact/compat''))
     ''react-dom/server''"
    by code_simp
  moreover have "re_test basic_regexp (module_regex (example_rule ''react-dom'' ''preact/compat''))
     ''react-dom/server''"
    by code_simp
  moreover have "transform basic_regexp empty_env
     (example_options []
        [example_rule ''react'' ''preact/compat'', example_rule ''react-dom'' ''preact/compat''] [])
     ''/p/esm/a.mjs'' [ImportDeclaration ''react-dom/server'']
   = Inr [ImportDeclaration ''preact/compat-dom/server'']"
    by code_simp
  ultimately show ?thesis by simp
qed

section \<open>The transformation phase\<close>

lemma transformation_names:
  "map parse_name (transformations c d) =
     [''cjs'', ''exports'', ''named-export-generation'', ''transformer'']"
  unfolding transformations_def list.map
  by (subst parse_name_join, simp add: simple_name_def, simp)+

lemma runTransformations_length:
  "runTransformations run ts ps topts fs = (results, fs') \<Longrightarrow> length results = length ts"
  by (induction ts arbitrary: fs results) (auto split: prod.splits)

text \<open>
  Every transformation runs on the files the one before it left, whatever the statistics
  of the one before it.
\<close>

lemma runTransformations_four:
  "runTransformations run [t1, t2, t3, t4] ps topts fs =
     ([fst (run t1 ps topts fs),
       fst (run t2 ps topts (snd (run t1 ps topts fs))),
       fst (run t3 ps topts (snd (run t2 ps topts (snd (run t1 ps topts fs))))),
       fst (run t4 ps topts (snd (run t3 ps topts (snd (run t2 ps topts (snd (run t1 ps topts fs)))))))],
      snd (run t4 ps topts (snd (run t3 ps topts (snd (run t2 ps topts (snd (run t1 ps topts fs))))))))"
  by (simp split: prod.splits)

lemma findIndex_first:
  "i < length xs \<Longrightarrow> p (xs ! i) \<Longrightarrow> \<forall>j<i. \<not> p (xs ! j) \<Longrightarrow> findIndex p xs = Some i"
proof (induction xs arbitrary: i)
  case Nil
  then show ?case by simp
next
  case (Cons x xs)
  show ?case
  proof (cases i)
    case 0
    with Cons.prems show ?thesis by simp
  next
    case (Suc k)
    with Cons.prems have "\<not> p x" by auto
    moreover from Suc Cons.prems have "findIndex p xs = Some k"
      by (intro Cons.IH) auto
    ultimately show ?thesis using Suc by simp
  qed
qed

lemma findIndex_none: "(\<forall>x\<in>set xs. \<not> p x) \<Longrightarrow> findIndex p xs = None"
  by (induction xs) auto

lemma example_transformations:
  "transformations ''/cm'' ''/own'' =
     [''/cm/cjs.js'', ''/cm/exports.js'', ''/cm/named-export-generation.js'', ''/own/transformer.js'']"
  by code_simp

lemma example_run:
  "runTransformations marking_runner (transformations ''/cm'' ''/own'') ps topts Map.empty =
     ([\<lparr>ok = 0, nochange = 0, skip = 0, error = 1\<rparr>, \<lparr>ok = 1, nochange = 0, skip = 0, error = 0\<rparr>,
       \<lparr>ok = 1, nochange = 0, skip = 0, error = 0\<rparr>, \<lparr>ok = 1, nochange = 0, skip = 0, error = 0\<rparr>],
      marked_files)"
  by (simp add: example_transformations marking_runner_def marked_files_def)

lemma example_shield:
  "shield r [example_file] (example_options ign mods []) fs = (Inr [], fs)"
  by (simp add: shield_def example_options_def)

text \<open>
  C1, as the sources have it. The four transformations run one after the other and the
  shebangs are restored; only then are the statistics read. If the sum of \<^verbatim>\<open>ok\<close> and
  \<^verbatim>\<open>nochange\<close> of a transformation differs from the number of files, the phase ends with
  an error whose message names the first such transformation, and the files are those
  left by the fourth transformation and the restoration.
\<close>

theorem transformOutput_failing_pass:
  assumes "fileList \<noteq> []"
      and "shield r fileList opts fs = (Inr shebangs, fs1)"
      and "runTransformations run (transformations fiveToSixCodeModPath dirname) [outputDir opts]
             (transformOptionsFor (hd fileList) opts) fs1 = (results, fs2)"
      and "restoreShebangs shebangs fs2 = (Inr u, fs3)"
      and "i < length results"
      and "ok (results ! i) + nochange (results ! i) \<noteq> length fileList"
      and "\<forall>j<i. ok (results ! j) + nochange (results ! j) = length fileList"
  shows "transformOutput run r fiveToSixCodeModPath dirname fileList opts fs =
           (Inl (Error (''At least one file couldn'' @ [CHR 0x27] @ ''t be transformed with `'' @
                   [''cjs'', ''exports'', ''named-export-generation'', ''transformer''] ! i @ ''`'')),
            fs3) \<and>
         length results = 4"
proof -
  let ?ts = "transformations fiveToSixCodeModPath dirname"
  have l: "length results = 4"
    using runTransformations_length [OF assms(3)] by (simp add: transformations_def)
  have f: "findIndex (\<lambda>st. ok st + nochange st \<noteq> length fileList) results = Some i"
    using assms(5,6,7) by (intro findIndex_first) auto
  from assms(5) l have "i < length ?ts" by (simp add: transformations_def)
  then have "parse_name (?ts ! i) = map parse_name ?ts ! i" by simp
  then have n: "parse_name (?ts ! i) =
      [''cjs'', ''exports'', ''named-export-generation'', ''transformer''] ! i"
    by (simp only: transformation_names)
  from assms(1) obtain first rest where fl: "fileList = first # rest"
    by (cases fileList) auto
  with assms(2,3,4) f n l show ?thesis
    by (simp add: transformOutput_def checkResults_def transformationError_def)
qed

theorem transformOutput_failing_pass_witness:
  "transformOutput marking_runner basic_regexp ''/cm'' ''/own'' [example_file]
     (example_options [] [] []) Map.empty =
   (Inl (Error (''At least one file couldn'' @ [CHR 0x27] @ ''t be transformed with `cjs`'')),
    marked_files)"
proof -
  let ?results = "[\<lparr>ok = 0, nochange = 0, skip = 0, error = 1\<rparr>, \<lparr>ok = 1, nochange = 0, skip = 0, error = 0\<rparr>,
       \<lparr>ok = 1, nochange = 0, skip = 0, error = 0\<rparr>, \<lparr>ok = 1, nochange = 0, skip = 0, error = 0\<rparr>]"
  have h1: "[example_file] \<noteq> []" by simp
  have h4: "restoreShebangs [] marked_files = (Inr (), marked_files)" by simp
  have h5: "0 < length ?results" by simp
  have h6: "ok (?results ! 0) + nochange (?results ! 0) \<noteq> length [example_file]" by simp
  have h7: "\<forall>j<0. ok (?results ! j) + nochange (?results ! j) = length [example_file]" by simp
  from transformOutput_failing_pass [OF h1 example_shield example_run h4 h5 h6 h7]
  show ?thesis by simp
qed

text \<open>
  An engine that fails in the first transformation, \<^verbatim>\<open>cjs\<close>: the error names \<^verbatim>\<open>cjs\<close>, and
  the three transformations after it have run, each has left its mark in the files.
\<close>

theorem transformOutput_later_passes_run:
  "fst (transformOutput marking_runner basic_regexp ''/cm'' ''/own'' [example_file]
          (example_options [] [] []) Map.empty) = Inl (transformationError ''/cm/cjs.js'') \<and>
   snd (transformOutput marking_runner basic_regexp ''/cm'' ''/own'' [example_file]
          (example_options [] [] []) Map.empty) ''/cm/exports.js'' = Some ''ran'' \<and>
   snd (transformOutput marking_runner basic_regexp ''/cm'' ''/own'' [example_file]
          (example_options [] [] []) Map.empty) ''/cm/named-export-generation.js'' = Some ''ran'' \<and>
   snd (transformOutput marking_runner basic_regexp ''/cm'' ''/own'' [example_file]
          (example_options [] [] []) Map.empty) ''/own/transformer.js'' = Some ''ran''"
proof -
  have "transformOutput marking_runner basic_regexp ''/cm'' ''/own'' [example_file]
          (example_options [] [] []) Map.empty = (Inl (transformationError ''/cm/cjs.js''), marked_files)"
    by (simp add: transformOutput_def example_shield example_run checkResults_def)
       (simp add: example_transformations)
  then show ?thesis by (simp add: marked_files_def)
qed

text \<open>
  C10. With an empty list of copied files, \<^verbatim>\<open>transformOutput\<close> fails with a
  \<^verbatim>\<open>TypeError\<close> when it reads the destination of the first file: no transformation is
  run and the files are left as they were, whatever the engine.
\<close>

theorem transformOutput_no_files:
  "transformOutput run r fiveToSixCodeModPath dirname [] opts fs = (Inl TypeError, fs)"
  by (simp add: transformOutput_def)

theorem transformOutput_no_files_witness:
  "transformOutput marking_runner basic_regexp ''/cm'' ''/own'' [] (example_options [] [] []) Map.empty
     = (Inl TypeError, Map.empty)"
  by (rule transformOutput_no_files)

section \<open>The shebang of a file, removed and restored\<close>

lemma shebang_exec_start:
  "prefix ''#!'' contents \<Longrightarrow>
   shebang_exec True contents = Some (takeWhile (\<lambda>x. \<not> is_line_terminator x) contents)"
  by (cases contents) auto

lemma replace_first_prefix: "replace_first p r (p @ s) = r @ s"
proof (cases "p @ s")
  case Nil
  then show ?thesis by simp
next
  case (Cons c cs)
  have "prefix p (c # cs)" unfolding Cons [symmetric] by simp
  then have "replace_first p r (c # cs) = r @ drop (length p) (c # cs)" by simp
  then show ?thesis unfolding Cons [symmetric] by simp
qed

lemma removeShebang_start:
  assumes "startsWith contents ''#!''"
  shows "removeShebang contents =
     Some (takeWhile (\<lambda>x. \<not> is_line_terminator x) contents,
           trimLeft (dropWhile (\<lambda>x. \<not> is_line_terminator x) contents))"
proof -
  let ?S = "takeWhile (\<lambda>x. \<not> is_line_terminator x) contents"
  let ?R = "dropWhile (\<lambda>x. \<not> is_line_terminator x) contents"
  have "replace_first ?S [] (?S @ ?R) = [] @ ?R" by (rule replace_first_prefix)
  then have "replace_first ?S [] contents = ?R" by simp
  with assms show ?thesis
    by (simp add: removeShebang_def startsWith_def shebang_exec_start)
qed

lemma trimLeft_blank_line:
  "([CHR 0x0A, CHR 0x0A] @ trimLeft rest = rest) =
   (\<exists>t. rest = [CHR 0x0A, CHR 0x0A] @ t \<and> (t = [] \<or> \<not> is_white_space (hd t)))"
proof
  assume a: "[CHR 0x0A, CHR 0x0A] @ trimLeft rest = rest"
  have "trimLeft rest = [] \<or> \<not> is_white_space (hd (trimLeft rest))"
    unfolding trimLeft_def by (metis hd_dropWhile)
  with a show "\<exists>t. rest = [CHR 0x0A, CHR 0x0A] @ t \<and> (t = [] \<or> \<not> is_white_space (hd t))"
    by metis
next
  assume "\<exists>t. rest = [CHR 0x0A, CHR 0x0A] @ t \<and> (t = [] \<or> \<not> is_white_space (hd t))"
  then obtain t where t: "rest = [CHR 0x0A, CHR 0x0A] @ t" "t = [] \<or> \<not> is_white_space (hd t)"
    by blast
  then have "dropWhile is_white_space t = t" by (cases t) auto
  with t(1) show "[CHR 0x0A, CHR 0x0A] @ trimLeft rest = rest"
    by (simp add: trimLeft_def is_white_space_def)
qed

lemma shebangItems_cong:
  "\<forall>g\<in>set fileList. fs' (file_to g) = fs (file_to g) \<Longrightarrow>
   shebangItems fs' fileList = shebangItems fs fileList"
proof (induction fileList)
  case Nil
  then show ?case by simp
next
  case (Cons f fl)
  then have "shebangItem fs' f = shebangItem fs f" "shebangItems fs' fl = shebangItems fs fl"
    by (simp_all add: shebangItem_def)
  then show ?case by (simp split: option.splits)
qed

lemma shebangItems_member:
  "f \<in> set fileList \<Longrightarrow> shebangItem fs f = Some item \<Longrightarrow> item \<in> set (shebangItems fs fileList)"
  by (induction fileList) (auto split: option.splits)

lemma removeShebangItems_distinct:
  assumes "distinct (map file_to fileList)" and "\<forall>f\<in>set fileList. fs (file_to f) \<noteq> None"
  shows "removeShebangItems fileList fs = (Inr (shebangItems fs fileList), strippedFiles fs fileList)"
  using assms
proof (induction fileList arbitrary: fs)
  case Nil
  then show ?case by (simp add: strippedFiles_def)
next
  case (Cons f rest)
  from Cons.prems obtain contents where c: "fs (file_to f) = Some contents" by auto
  from Cons.prems have k: "file_to f \<notin> file_to ` set rest" and d: "distinct (map file_to rest)"
    by auto
  show ?case
  proof (cases "removeShebang contents")
    case None
    have s: "strippedFiles fs (f # rest) = strippedFiles fs rest"
      using c k None by (auto simp add: strippedFiles_def strippedContents_def fun_eq_iff)
    have i: "shebangItem fs f = None"
      using c None by (simp add: shebangItem_def)
    have "removeShebangItems rest fs = (Inr (shebangItems fs rest), strippedFiles fs rest)"
      using d Cons.prems(2) by (intro Cons.IH) auto
    with c None s i show ?thesis by simp
  next
    case (Some a)
    then obtain shebang contents' where s: "removeShebang contents = Some (shebang, contents')"
      by (cases a) auto
    let ?fs = "fs(file_to f \<mapsto> contents')"
    have p: "\<forall>g\<in>set rest. ?fs (file_to g) \<noteq> None"
      using Cons.prems(2) by auto
    have ih: "removeShebangItems rest ?fs = (Inr (shebangItems ?fs rest), strippedFiles ?fs rest)"
      using d p by (rule Cons.IH)
    have "\<forall>g\<in>set rest. ?fs (file_to g) = fs (file_to g)"
      using k by (auto simp add: image_iff)
    then have m: "shebangItems ?fs rest = shebangItems fs rest"
      by (rule shebangItems_cong)
    have t: "strippedFiles ?fs rest = strippedFiles fs (f # rest)"
      using c k s by (auto simp add: strippedFiles_def strippedContents_def fun_eq_iff)
    have i: "shebangItem fs f = Some (shebang, f)"
      using c s by (simp add: shebangItem_def)
    from c s ih m t i show ?thesis by simp
  qed
qed

lemma object_set_new: "k \<notin> fst ` set kvs \<Longrightarrow> object_set k v kvs = kvs @ [(k, v)]"
  by (induction kvs) auto

lemma shebangs_object_distinct:
  "distinct (map fst acc @ map (file_to \<circ> snd) items) \<Longrightarrow>
   foldl (\<lambda>acc (shebang, file). object_set (file_to file) shebang acc) acc items =
     acc @ map (\<lambda>(shebang, file). (file_to file, shebang)) items"
proof (induction items arbitrary: acc)
  case Nil
  then show ?case by simp
next
  case (Cons item items)
  obtain shebang f where i: "item = (shebang, f)" by (cases item)
  from Cons.prems i have n: "file_to f \<notin> fst ` set acc" by auto
  from Cons.prems i have "distinct (map fst (acc @ [(file_to f, shebang)]) @ map (file_to \<circ> snd) items)"
    by (auto simp add: comp_def)
  from Cons.IH [OF this] n i show ?case by (simp add: object_set_new)
qed

lemma shebangItems_keys:
  "distinct (map file_to fileList) \<Longrightarrow>
   distinct (map (file_to \<circ> snd) (shebangItems fs fileList)) \<and>
   (file_to \<circ> snd) ` set (shebangItems fs fileList) \<subseteq> file_to ` set fileList"
proof (induction fileList)
  case Nil
  then show ?case by simp
next
  case (Cons f fl)
  then show ?case
    by (cases "shebangItem fs f") (auto simp add: shebangItem_def split: option.splits)
qed

lemma removeShebangs_distinct:
  assumes "distinct (map file_to fileList)" and "\<forall>f\<in>set fileList. fs (file_to f) \<noteq> None"
  shows "removeShebangs fileList fs =
           (Inr (map (\<lambda>(shebang, file). (file_to file, shebang))
                   (shebangItems fs fileList)),
            strippedFiles fs fileList)"
proof -
  have "distinct (map fst ([] :: (string \<times> string) list) @
          map (file_to \<circ> snd) (shebangItems fs fileList))"
    using shebangItems_keys [OF assms(1), of fs] by simp
  from shebangs_object_distinct [OF this] removeShebangItems_distinct [OF assms]
  show ?thesis by (simp add: removeShebangs_def)
qed

lemma restoreShebangs_distinct:
  "distinct (map fst shebangs) \<Longrightarrow> \<forall>k\<in>fst ` set shebangs. fs k \<noteq> None \<Longrightarrow>
   restoreShebangs shebangs fs = (Inr (), restoredFiles shebangs fs)"
proof (induction shebangs arbitrary: fs)
  case Nil
  then show ?case by (simp add: restoredFiles_def)
next
  case (Cons kv kvs)
  obtain filepath shebang where kv: "kv = (filepath, shebang)" by (cases kv)
  from Cons.prems kv obtain contents where c: "fs filepath = Some contents" by auto
  let ?fs = "fs(filepath \<mapsto> restoreShebang shebang contents)"
  from Cons.prems kv have n: "filepath \<notin> fst ` set kvs" and d: "distinct (map fst kvs)" by auto
  have "\<forall>k\<in>fst ` set kvs. ?fs k \<noteq> None" using Cons.prems(2) by auto
  from Cons.IH [OF d this] have ih: "restoreShebangs kvs ?fs = (Inr (), restoredFiles kvs ?fs)" .
  have m: "map_of kvs filepath = None" using n by (simp add: map_of_eq_None_iff)
  have "restoredFiles kvs ?fs = restoredFiles ((filepath, shebang) # kvs) fs"
    using c m by (auto simp add: restoredFiles_def fun_eq_iff split: option.splits)
  with ih c kv show ?case by simp
qed

text \<open>
  C2, as the sources have it. Take files with distinct destinations, all of them there,
  and among them a file whose contents begin with \<^verbatim>\<open>#!\<close>. The shebang that is recorded
  for it is its first line without the end of the line; what is written back is the rest
  with the white space at its beginning removed. The restoration writes the shebang, two
  line feeds and that rest. The file is then as it was exactly when, in the original, the
  shebang was followed by two line feeds and then by no white space.
\<close>

theorem shebang_round_trip:
  assumes "distinct (map file_to fileList)"
      and "\<forall>f\<in>set fileList. fs (file_to f) \<noteq> None"
      and "file \<in> set fileList"
      and "fs (file_to file) = Some contents"
      and "startsWith contents ''#!''"
      and "shebang = takeWhile (\<lambda>x. \<not> is_line_terminator x) contents"
      and "rest = trimLeft (drop (length shebang) contents)"
  shows "\<exists>shebangs fs1 fs2.
           removeShebangs fileList fs = (Inr shebangs, fs1) \<and>
           map_of shebangs (file_to file) = Some shebang \<and>
           fs1 (file_to file) = Some rest \<and>
           restoreShebangs shebangs fs1 = (Inr (), fs2) \<and>
           fs2 (file_to file) = Some (shebang @ [CHR 0x0A, CHR 0x0A] @ rest) \<and>
           (shebang @ [CHR 0x0A, CHR 0x0A] @ rest = contents \<longleftrightarrow>
              (\<exists>t. contents = shebang @ [CHR 0x0A, CHR 0x0A] @ t \<and>
                   (t = [] \<or> \<not> is_white_space (hd t))))"
proof -
  let ?R = "dropWhile (\<lambda>x. \<not> is_line_terminator x) contents"
  let ?items = "shebangItems fs fileList"
  let ?shebangs = "map (\<lambda>(shebang, file). (file_to file, shebang)) ?items"
  let ?fs1 = "strippedFiles fs fileList"
  have c: "contents = shebang @ ?R" using assms(6) by simp
  then have d: "drop (length shebang) contents = ?R"
    by (metis append_eq_conv_conj)
  with assms(5,6,7) have rm: "removeShebang contents = Some (shebang, rest)"
    by (simp add: removeShebang_start)
  have a: "removeShebangs fileList fs = (Inr ?shebangs, ?fs1)"
    using assms(1,2) by (rule removeShebangs_distinct)
  have keys: "map fst ?shebangs = map (file_to \<circ> snd) ?items"
    by (simp add: comp_def case_prod_unfold)
  have dk: "distinct (map fst ?shebangs)"
    unfolding keys using shebangItems_keys [OF assms(1), of fs] by blast
  have "shebangItem fs file = Some (shebang, file)"
    using assms(4) rm by (simp add: shebangItem_def)
  with assms(3) have "(shebang, file) \<in> set ?items"
    by (rule shebangItems_member)
  then have "(file_to file, shebang) \<in> set ?shebangs" by force
  with dk have m: "map_of ?shebangs (file_to file) = Some shebang" by simp
  have f1: "?fs1 (file_to file) = Some rest"
    using assms(3,4) rm by (simp add: strippedFiles_def strippedContents_def)
  have "\<forall>k\<in>fst ` set ?shebangs. ?fs1 k \<noteq> None"
  proof
    fix k assume "k \<in> fst ` set ?shebangs"
    then have "k \<in> set (map fst ?shebangs)" by (simp only: set_map)
    then have "k \<in> (file_to \<circ> snd) ` set ?items" unfolding keys by (simp only: set_map)
    with shebangItems_keys [OF assms(1), of fs] have "k \<in> file_to ` set fileList" by blast
    with assms(2) show "?fs1 k \<noteq> None" by (auto simp add: strippedFiles_def)
  qed
  with dk have b: "restoreShebangs ?shebangs ?fs1 = (Inr (), restoredFiles ?shebangs ?fs1)"
    by (rule restoreShebangs_distinct)
  have f2: "restoredFiles ?shebangs ?fs1 (file_to file) =
              Some (shebang @ [CHR 0x0A, CHR 0x0A] @ rest)"
    using m f1 by (simp add: restoredFiles_def restoreShebang_def)
  have "(shebang @ [CHR 0x0A, CHR 0x0A] @ rest = contents) =
        ([CHR 0x0A, CHR 0x0A] @ trimLeft ?R = ?R)"
    using c d assms(7) by (metis same_append_eq)
  also have "\<dots> = (\<exists>t. ?R = [CHR 0x0A, CHR 0x0A] @ t \<and> (t = [] \<or> \<not> is_white_space (hd t)))"
    by (rule trimLeft_blank_line)
  also have "\<dots> = (\<exists>t. contents = shebang @ [CHR 0x0A, CHR 0x0A] @ t \<and> (t = [] \<or> \<not> is_white_space (hd t)))"
    using c by (metis same_append_eq)
  finally show ?thesis using a m f1 b f2 by blast
qed

text \<open>
  Two files, one with a shebang followed by an empty line and a statement: it is as
  it was after the removal and the restoration.
\<close>

theorem shebang_round_trip_witness:
  "\<exists>shebangs fs1 fs2.
     removeShebangs [example_file, bin_file] two_files = (Inr shebangs, fs1) \<and>
     map_of shebangs ''/p/esm/bin.mjs'' = Some ''#!/usr/bin/env node'' \<and>
     fs1 ''/p/esm/bin.mjs'' = Some ''console.log(1)'' \<and>
     restoreShebangs shebangs fs1 = (Inr (), fs2) \<and>
     fs2 ''/p/esm/bin.mjs'' = two_files ''/p/esm/bin.mjs''"
proof -
  let ?c = "''#!/usr/bin/env node'' @ [CHR 0x0A, CHR 0x0A] @ ''console.log(1)''"
  have h1: "distinct (map file_to [example_file, bin_file])"
    by (simp add: example_file_def bin_file_def)
  have h2: "\<forall>f\<in>set [example_file, bin_file]. two_files (file_to f) \<noteq> None"
    by (simp add: example_file_def bin_file_def two_files_def)
  have h3: "bin_file \<in> set [example_file, bin_file]" by simp
  have h4: "two_files (file_to bin_file) = Some ?c"
    by (simp add: two_files_def bin_file_def)
  have h5: "startsWith ?c ''#!''" by (simp add: startsWith_def)
  have h6: "''#!/usr/bin/env node'' = takeWhile (\<lambda>x. \<not> is_line_terminator x) ?c"
    by (simp add: is_line_terminator_def)
  have h7: "''console.log(1)'' = trimLeft (drop (length ''#!/usr/bin/env node'') ?c)"
    by (simp add: trimLeft_def is_white_space_def)
  have t: "file_to bin_file = ''/p/esm/bin.mjs''" by (simp add: bin_file_def)
  have o: "two_files ''/p/esm/bin.mjs'' = Some ?c" by (simp add: two_files_def)
  from shebang_round_trip [of "[example_file, bin_file]" two_files bin_file ?c
      "''#!/usr/bin/env node''" "''console.log(1)''", OF h1 h2 h3 h4 h5 h6 h7]
  show ?thesis unfolding t o by blast
qed

text \<open>
  A file of two lines, the shebang and a statement: after the removal and the
  restoration there is an empty line between them.
\<close>

theorem shebang_round_trip_blank_line:
  "removeShebangs [bin_file] bin_files =
     (Inr [(''/p/esm/bin.mjs'', ''#!/usr/bin/env node'')],
      [''/p/esm/bin.mjs'' \<mapsto> ''console.log(1)'']) \<and>
   restoreShebangs [(''/p/esm/bin.mjs'', ''#!/usr/bin/env node'')]
      [''/p/esm/bin.mjs'' \<mapsto> ''console.log(1)''] =
     (Inr (), [''/p/esm/bin.mjs'' \<mapsto> ''#!/usr/bin/env node'' @ [CHR 0x0A, CHR 0x0A] @ ''console.log(1)'']) \<and>
   bin_files ''/p/esm/bin.mjs'' = Some (''#!/usr/bin/env node'' @ [CHR 0x0A] @ ''console.log(1)'') \<and>
   ''#!/usr/bin/env node'' @ [CHR 0x0A, CHR 0x0A] @ ''console.log(1)'' \<noteq>
     ''#!/usr/bin/env node'' @ [CHR 0x0A] @ ''console.log(1)''"
  by (simp add: removeShebangs_def removeShebang_def bin_file_def bin_files_def restoreShebang_def
        trimLeft_def is_white_space_def is_line_terminator_def)

section \<open>The destination of a copied file\<close>

text \<open>
  C6. A directory with the files \<^verbatim>\<open>.js\<close> and \<^verbatim>\<open>Foo.JS\<close>, copied with the extension
  \<^verbatim>\<open>mjs\<close>. Both pass the filter of \<^verbatim>\<open>findFiles\<close>. The destination of \<^verbatim>\<open>Foo.JS\<close> is
  \<^verbatim>\<open>Foo.mjs\<close>. For \<^verbatim>\<open>.js\<close>, \<^verbatim>\<open>path.parse\<close> gives no extension, the expression that is
  built looks for a dollar sign, and the destination stays \<^verbatim>\<open>.js\<close>.
\<close>

theorem copyDirectory_dot_js:
  "copyDirectory basic_regexp ''/p'' ''/p/src'' [(''.js'', File), (''Foo.JS'', File)] ''/p/esm'' ''mjs'' False =
     [\<lparr>file_from = ''/p/src/.js'', file_to = ''/p/esm/.js''\<rparr>,
      \<lparr>file_from = ''/p/src/Foo.JS'', file_to = ''/p/esm/Foo.mjs''\<rparr>] \<and>
   parse_ext ''/p/esm/.js'' = [] \<and> \<not> suffix ''.mjs'' ''/p/esm/.js''"
  by code_simp

end
